theory Spec2Isabelle
  imports Complex_Main "HOL-Library.Sublist"
begin

section \<open>Python values and exceptions\<close>

text \<open>
  Exceptions that the modelled code can raise. All of them are subclasses of Python's
  \<open>Exception\<close>, so an \<open>except Exception\<close> clause catches each of them.
  \<open>HTTPException\<close> carries the status code the endpoint answers with.
\<close>

datatype exn =
    KeyError
  | AttributeError
  | TypeError
  | ValueError
  | JSONDecodeError
  | RuntimeError
  | TransportError
  | HTTPException nat

section \<open>cache.py: the TTL cache\<close>

text \<open>
  \<open>TTLCache._store\<close> is an \<open>OrderedDict\<close> from keys to pairs \<open>(value, ts)\<close>.
  It is modelled as an association list in insertion order. Clock readings
  (\<open>time.time()\<close>) are passed in by the caller of each operation and are taken as real
  numbers; \<open>ttl_seconds\<close> and \<open>max_items\<close> are Python integers.
\<close>

record 'v TTLCache =
  ttl :: int
  max_items :: int
  store :: "(string \<times> ('v \<times> real)) list"

text \<open>\<open>TTLCache.__init__\<close>: the store starts empty.\<close>

definition TTLCache_init :: "int \<Rightarrow> int \<Rightarrow> 'v TTLCache" where
  "TTLCache_init ttl_seconds m = \<lparr>ttl = ttl_seconds, max_items = m, store = []\<rparr>"

text \<open>
  \<open>d[key] = item\<close> on an \<open>OrderedDict\<close>: a key that is present keeps its position and
  gets the new item, a new key goes to the end.
\<close>

fun od_assign :: "string \<Rightarrow> 'a \<Rightarrow> (string \<times> 'a) list \<Rightarrow> (string \<times> 'a) list" where
  "od_assign k v [] = [(k, v)]"
| "od_assign k v (p # ps) = (if fst p = k then (k, v) # ps else p # od_assign k v ps)"

text \<open>\<open>d.pop(key, None)\<close>: the key is removed when present, nothing is raised.\<close>

definition od_pop :: "string \<Rightarrow> (string \<times> 'a) list \<Rightarrow> (string \<times> 'a) list" where
  "od_pop k ps = filter (\<lambda>p. fst p \<noteq> k) ps"

text \<open>
  \<open>d.popitem(last=False)\<close>: removes and returns the first entry in insertion order, and
  raises \<open>KeyError\<close> on an empty dictionary.
\<close>

definition od_popitem_first ::
  "(string \<times> 'a) list \<Rightarrow> exn + ((string \<times> 'a) \<times> (string \<times> 'a) list)" where
  "od_popitem_first ps = (case ps of [] \<Rightarrow> Inl KeyError | p # rest \<Rightarrow> Inr (p, rest))"

text \<open>
  \<open>TTLCache.get\<close>. The stored item is a pair, which is never falsy, so \<open>not item\<close> holds
  exactly for a missing key. The result is the returned value (\<open>None\<close> for Python's
  \<open>None\<close>) and the cache after the call.
\<close>

definition TTLCache_get :: "'v TTLCache \<Rightarrow> string \<Rightarrow> real \<Rightarrow> 'v option \<times> 'v TTLCache" where
  "TTLCache_get c key now =
     (case map_of (store c) key of
        None \<Rightarrow> (None, c)
      | Some (val, ts) \<Rightarrow>
          if now - ts > real_of_int (ttl c)
          then (None, c\<lparr>store := od_pop key (store c)\<rparr>)
          else (Some val, c))"

text \<open>
  \<open>TTLCache.set\<close>. \<open>popitem\<close> raises on an empty store (possible only when
  \<open>max_items \<le> 0\<close>); the exception leaves the cache as it was.
\<close>

definition TTLCache_set :: "'v TTLCache \<Rightarrow> string \<Rightarrow> 'v \<Rightarrow> real \<Rightarrow> exn + 'v TTLCache" where
  "TTLCache_set c key val now =
     (if int (length (store c)) \<ge> max_items c
      then (case od_popitem_first (store c) of
              Inl e \<Rightarrow> Inl e
            | Inr (_, rest) \<Rightarrow> Inr (c\<lparr>store := od_assign key (val, now) rest\<rparr>))
      else Inr (c\<lparr>store := od_assign key (val, now) (store c)\<rparr>))"

text \<open>
  A sequence of calls on one cache object. A \<open>set\<close> that raises leaves the object
  unchanged, and the object lives on for the calls that follow.
\<close>

datatype 'v cache_op = Op_get string real | Op_set string 'v real

fun run_op :: "'v TTLCache \<Rightarrow> 'v cache_op \<Rightarrow> 'v TTLCache" where
  "run_op c (Op_get key now) = snd (TTLCache_get c key now)"
| "run_op c (Op_set key val now) =
     (case TTLCache_set c key val now of Inl _ \<Rightarrow> c | Inr c' \<Rightarrow> c')"

definition run_ops :: "'v TTLCache \<Rightarrow> 'v cache_op list \<Rightarrow> 'v TTLCache" where
  "run_ops c ops = foldl run_op c ops"

text \<open>
  Ghost bookkeeping for the insertion order: next to the cache runs a table that gives
  every key the number of the call that inserted it as a new key (an overwrite of a key
  that is present leaves its number as it is). The cache itself is computed by
  \<open>run_op\<close>; the table only observes it.
\<close>

fun stamp_step :: "'v TTLCache \<times> (string \<Rightarrow> nat) \<times> nat \<Rightarrow> 'v cache_op
    \<Rightarrow> 'v TTLCache \<times> (string \<Rightarrow> nat) \<times> nat" where
  "stamp_step (c, b, n) (Op_get key now) = (run_op c (Op_get key now), b, Suc n)"
| "stamp_step (c, b, n) (Op_set key val now) =
     (run_op c (Op_set key val now),
      (case TTLCache_set c key val now of
         Inl _ \<Rightarrow> b
       | Inr _ \<Rightarrow>
           if key \<in> fst ` set (if int (length (store c)) \<ge> max_items c
                                then tl (store c) else store c)
           then b else b(key := n)),
      Suc n)"

definition stamp_run ::
  "'v TTLCache \<Rightarrow> 'v cache_op list \<Rightarrow> 'v TTLCache \<times> (string \<Rightarrow> nat) \<times> nat" where
  "stamp_run c ops = foldl stamp_step (c, (\<lambda>_. 0), 0) ops"

definition insertion_stamp :: "'v TTLCache \<Rightarrow> 'v cache_op list \<Rightarrow> string \<Rightarrow> nat" where
  "insertion_stamp c ops = fst (snd (stamp_run c ops))"

section \<open>Strings\<close>

text \<open>
  Python strings are modelled as lists of 8-bit characters, read as the code points
  below 256. \<open>str.strip()\<close> removes the whitespace characters from both ends: the code
  points 9 to 13, 28 to 32, 133 and 160. \<open>str.lower()\<close> maps the capitals \<open>A\<close> to \<open>Z\<close> and
  the capitals 192 to 222 (without the multiplication sign 215) to the code point 32
  above. \<open>str.upper()\<close> maps the small letters \<open>a\<close> to \<open>z\<close> and 224 to 254 (without the
  division sign 247) to the code point 32 below, and the sharp s (223) to \<open>SS\<close>. The micro
  sign (181) and the y with diaeresis (255) have upper-case forms beyond code point 255;
  strings that hold them are outside the model, which leaves the two characters as they
  are.
\<close>

definition py_isspace :: "char \<Rightarrow> bool" where
  "py_isspace c = (let n = (of_char c :: nat) in
     (9 \<le> n \<and> n \<le> 13) \<or> (28 \<le> n \<and> n \<le> 32) \<or> n = 133 \<or> n = 160)"

definition py_strip :: "string \<Rightarrow> string" where
  "py_strip s = rev (dropWhile py_isspace (rev (dropWhile py_isspace s)))"

definition lower_char :: "char \<Rightarrow> char" where
  "lower_char c = (let n = (of_char c :: nat) in
     if (65 \<le> n \<and> n \<le> 90) \<or> (192 \<le> n \<and> n \<le> 222 \<and> n \<noteq> 215)
     then char_of (n + 32) else c)"

definition upper_char :: "char \<Rightarrow> string" where
  "upper_char c = (let n = (of_char c :: nat) in
     if (97 \<le> n \<and> n \<le> 122) \<or> (224 \<le> n \<and> n \<le> 254 \<and> n \<noteq> 247)
     then [char_of (n - 32)]
     else if n = 223 then ''SS'' else [c])"

definition py_lower :: "string \<Rightarrow> string" where
  "py_lower s = map lower_char s"

definition py_upper :: "string \<Rightarrow> string" where
  "py_upper s = concat (map upper_char s)"

text \<open>
  \<open>s.replace(old, "")\<close> for a non-empty \<open>old\<close>: every occurrence of \<open>old\<close> is removed,
  scanning from the left without overlaps.
\<close>

fun py_remove :: "string \<Rightarrow> string \<Rightarrow> string" where
  "py_remove old [] = []"
| "py_remove old (c # cs) =
     (if old \<noteq> [] \<and> prefix old (c # cs)
      then py_remove old (drop (length old) (c # cs))
      else c # py_remove old cs)"

text \<open>\<open>s.endswith(suf)\<close>.\<close>

definition py_endswith :: "string \<Rightarrow> string \<Rightarrow> bool" where
  "py_endswith s suf = suffix suf s"

section \<open>Parsed JSON payloads\<close>

text \<open>
  What \<open>resp.json()\<close> returns: \<open>JNull\<close> is Python's \<open>None\<close>, \<open>JObj\<close> holds the entries
  of a \<open>dict\<close> (its keys are distinct), \<open>JArr\<close> a \<open>list\<close>.
\<close>

datatype json =
    JNull
  | JBool bool
  | JNum real
  | JStr string
  | JArr "json list"
  | JObj "(string \<times> json) list"

text \<open>
  \<open>obj.get(key, default)\<close>. Only a \<open>dict\<close> has the method; on any other value Python
  raises \<open>AttributeError\<close>.
\<close>

fun py_get :: "json \<Rightarrow> string \<Rightarrow> json \<Rightarrow> exn + json" where
  "py_get (JObj kvs) k d = Inr (case map_of kvs k of None \<Rightarrow> d | Some v \<Rightarrow> v)"
| "py_get _ k d = Inl AttributeError"

text \<open>
  \<open>for item in obj\<close>: a list yields its elements, a dict its keys, a string its
  characters; \<open>None\<close>, booleans and numbers are not iterable.
\<close>

fun py_iter :: "json \<Rightarrow> exn + json list" where
  "py_iter (JArr xs) = Inr xs"
| "py_iter (JObj kvs) = Inr (map (\<lambda>p. JStr (fst p)) kvs)"
| "py_iter (JStr s) = Inr (map (\<lambda>c. JStr [c]) s)"
| "py_iter _ = Inl TypeError"

text \<open>Sequencing of steps that may raise.\<close>

definition ebind :: "exn + 'a \<Rightarrow> ('a \<Rightarrow> exn + 'b) \<Rightarrow> exn + 'b" where
  "ebind r f = (case r of Inl e \<Rightarrow> Inl e | Inr v \<Rightarrow> f v)"

section \<open>The process state and the upstreams\<close>

text \<open>
  Everything the process does to the outside world is recorded, in order, in a trace:
  creating and closing the NSE session client, each HTTP request (with the client that
  sent it; \<open>None\<close> for the one-shot client of the Yahoo search), each backoff sleep
  (in seconds) and each call into the yfinance library.
\<close>

datatype endpoint =
    NSE_BASE_URL
  | NSE_QUOTE_URL string
  | NSE_SEARCH_URL string
  | YAHOO_SEARCH_URL string

datatype event =
    Ev_create nat
  | Ev_close nat
  | Ev_get "nat option" endpoint
  | Ev_sleep real
  | Ev_fast_info string
  | Ev_history string

text \<open>
  An HTTP request either fails in transport (the client raises) or brings a response
  with a status code and a body; the body is \<open>None\<close> when \<open>resp.json()\<close> raises on it.
  The call into yfinance for the current price has four outcomes: \<open>yf.Ticker(symbol)\<close>
  or \<open>ticker.fast_info\<close> raises; reading \<open>last_price\<close> inside \<open>getattr\<close> raises; the price
  is \<open>None\<close>; or it is a number. \<open>history(period="1d")\<close> raises, is empty, or has a last
  closing price.
\<close>

datatype http_result = Transport_error | Response int "json option"

datatype yf_price = Ticker_raises exn | Price_raises exn | Price_none | Price real

datatype yf_hist = Hist_raises exn | Hist_empty | Hist_close real

text \<open>
  The upstreams are black boxes: each answer is a function of the trace so far, the
  request being its last event. Any deterministic behaviour of the providers, however
  it depends on the history, is such a function.
\<close>

record env =
  http_get :: "event list \<Rightarrow> http_result"
  yf_last_price :: "event list \<Rightarrow> yf_price"
  yf_history :: "event list \<Rightarrow> yf_hist"

text \<open>
  The module-level state: the two caches of \<open>main.py\<close>, the global \<open>_client\<close> of
  \<open>nse_client.py\<close> (a client object is its identity; \<open>closed_clients\<close> holds the clients whose
  \<open>is_closed\<close> is true, \<open>fresh\<close> is the identity the next client gets) and the trace.
\<close>

record state =
  symbol_cache :: "string TTLCache"
  price_cache :: "real TTLCache"
  nse_client :: "nat option"
  closed_clients :: "nat set"
  fresh :: nat
  trace :: "event list"

text \<open>The state at import time: \<open>TTLCache(ttl_seconds=3600)\<close>, \<open>TTLCache(ttl_seconds=0)\<close>,
  \<open>_client = None\<close>.\<close>

definition initial_state :: state where
  "initial_state = \<lparr>symbol_cache = TTLCache_init 3600 256, price_cache = TTLCache_init 0 256,
     nse_client = None, closed_clients = {}, fresh = 0, trace = []\<rparr>"

text \<open>Client identities in use lie below \<open>fresh\<close>; every reachable state is so.\<close>

definition state_ok :: "state \<Rightarrow> bool" where
  "state_ok st \<longleftrightarrow> (\<forall>c \<in> closed_clients st. c < fresh st) \<and> (\<forall>c. nse_client st = Some c \<longrightarrow> c < fresh st)"

definition emit :: "event \<Rightarrow> state \<Rightarrow> state" where
  "emit ev st = st\<lparr>trace := trace st @ [ev]\<rparr>"

text \<open>
  \<open>await client.get(url, params=...)\<close> on the session client: a closed client raises
  before anything is sent; otherwise the request goes out and the upstream decides.
\<close>

definition client_get ::
  "env \<Rightarrow> nat \<Rightarrow> endpoint \<Rightarrow> state \<Rightarrow> (exn + (int \<times> json option)) \<times> state" where
  "client_get ev c url st =
     (if c \<in> closed_clients st then (Inl RuntimeError, st)
      else let st' = emit (Ev_get (Some c) url) st in
           (case http_get ev (trace st') of
              Transport_error \<Rightarrow> (Inl TransportError, st')
            | Response status body \<Rightarrow> (Inr (status, body), st')))"

text \<open>\<open>resp.json()\<close>.\<close>

definition resp_json :: "json option \<Rightarrow> exn + json" where
  "resp_json body = (case body of None \<Rightarrow> Inl JSONDecodeError | Some data \<Rightarrow> Inr data)"

text \<open>\<open>try: ... except Exception: ...\<close> around a computation on the state.\<close>

definition try_except ::
  "(exn + 'a) \<times> state \<Rightarrow> (exn \<Rightarrow> state \<Rightarrow> (exn + 'a) \<times> state) \<Rightarrow> (exn + 'a) \<times> state" where
  "try_except r handler = (case r of (Inl e, st) \<Rightarrow> handler e st | (Inr v, st) \<Rightarrow> (Inr v, st))"

section \<open>nse_client.py\<close>

text \<open>
  \<open>_get_client\<close>: reuse the global client, or (\<open>new_client\<close>, the body of the \<open>if\<close>)
  create one and warm the session up with a request to the home page whose failure is
  swallowed.
\<close>

definition new_client :: "env \<Rightarrow> state \<Rightarrow> nat \<times> state" where
  "new_client ev st =
     (let n = fresh st;
          st1 = emit (Ev_create n) (st\<lparr>nse_client := Some n, fresh := Suc n\<rparr>)
      in (n, snd (try_except (client_get ev n NSE_BASE_URL st1) (\<lambda>e s. (Inr (0, None), s)))))"

definition get_client :: "env \<Rightarrow> state \<Rightarrow> nat \<times> state" where
  "get_client ev st =
     (case nse_client st of
        None \<Rightarrow> new_client ev st
      | Some c \<Rightarrow> if c \<in> closed_clients st then new_client ev st else (c, st))"

text \<open>\<open>await _client.aclose()\<close>.\<close>

definition aclose :: "nat \<Rightarrow> state \<Rightarrow> state" where
  "aclose c st = emit (Ev_close c) (st\<lparr>closed_clients := insert c (closed_clients st)\<rparr>)"

text \<open>The loop of \<open>search_nse_symbol\<close> over the candidates of the NSE autocomplete.\<close>

fun nse_scan :: "json list \<Rightarrow> exn + string option" where
  "nse_scan [] = Inr None"
| "nse_scan (item # items) =
     ebind (py_get item ''symbol'' (JStr ''''))
       (\<lambda>v. case v of
              JStr s \<Rightarrow> (let symbol = py_upper s in
                          if symbol \<noteq> [] then Inr (Some symbol) else nse_scan items)
            | _ \<Rightarrow> Inl AttributeError)"

definition nse_search_body :: "env \<Rightarrow> nat \<Rightarrow> string \<Rightarrow> state \<Rightarrow> (exn + string option) \<times> state" where
  "nse_search_body ev client query st =
     (case client_get ev client (NSE_SEARCH_URL (py_upper (py_strip query))) st of
        (Inl e, st') \<Rightarrow> (Inl e, st')
      | (Inr (status, body), st') \<Rightarrow>
          if status \<noteq> 200 then (Inr None, st')
          else (ebind (resp_json body)
                  (\<lambda>data. ebind (py_get data ''symbols'' (JArr []))
                    (\<lambda>symbols. ebind (py_iter symbols) nse_scan)), st'))"

definition nse_search_nse_symbol :: "env \<Rightarrow> string \<Rightarrow> state \<Rightarrow> (exn + string option) \<times> state" where
  "nse_search_nse_symbol ev query st =
     (case get_client ev st of
        (client, st1) \<Rightarrow> try_except (nse_search_body ev client query st1) (\<lambda>e s. (Inr None, s)))"

text \<open>The dictionary \<open>fetch_nse_price\<close> returns; a field the payload lacks is \<open>None\<close>.\<close>

record quote =
  q_symbol :: string
  q_price :: json
  q_open :: json
  q_high :: json
  q_low :: json
  q_prev_close :: json
  q_change :: json
  q_change_pct :: json
  q_volume :: json

definition build_quote :: "string \<Rightarrow> json \<Rightarrow> exn + quote" where
  "build_quote clean_symbol data =
     ebind (py_get data ''priceInfo'' (JObj [])) (\<lambda>price_info.
     ebind (py_get price_info ''lastPrice'' JNull) (\<lambda>price.
     ebind (py_get price_info ''open'' JNull) (\<lambda>opn.
     ebind (ebind (py_get price_info ''intraDayHighLow'' (JObj [])) (\<lambda>hl. py_get hl ''max'' JNull)) (\<lambda>high.
     ebind (ebind (py_get price_info ''intraDayHighLow'' (JObj [])) (\<lambda>hl. py_get hl ''min'' JNull)) (\<lambda>low.
     ebind (py_get price_info ''previousClose'' JNull) (\<lambda>prev_close.
     ebind (py_get price_info ''change'' JNull) (\<lambda>change.
     ebind (py_get price_info ''pChange'' JNull) (\<lambda>change_pct.
     ebind (ebind (py_get data ''preOpenMarket'' (JObj [])) (\<lambda>pm. py_get pm ''totalTradedVolume'' JNull)) (\<lambda>volume.
     Inr \<lparr>q_symbol = clean_symbol @ ''.NS'', q_price = price, q_open = opn, q_high = high,
          q_low = low, q_prev_close = prev_close, q_change = change,
          q_change_pct = change_pct, q_volume = volume\<rparr>)))))))))"

text \<open>
  One pass through the body of the \<open>try\<close> in the retry loop: it returns from the function,
  goes on to the next attempt with a rebuilt client (\<open>continue\<close> after a 401), or raises.
\<close>

datatype attempt_outcome = Returned "quote option" | Retry_with nat | Raised exn

definition attempt_body :: "env \<Rightarrow> string \<Rightarrow> nat \<Rightarrow> state \<Rightarrow> attempt_outcome \<times> state" where
  "attempt_body ev clean_symbol client st =
     (case client_get ev client (NSE_QUOTE_URL clean_symbol) st of
        (Inl e, st1) \<Rightarrow> (Raised e, st1)
      | (Inr (status, body), st1) \<Rightarrow>
          if status = 401
          then (let st2 = (case nse_client st1 of None \<Rightarrow> st1 | Some c \<Rightarrow> aclose c st1);
                    st3 = st2\<lparr>nse_client := None\<rparr>
                in case get_client ev st3 of (client', st4) \<Rightarrow> (Retry_with client', st4))
          else if status \<noteq> 200 then (Returned None, st1)
          else (case ebind (resp_json body) (build_quote clean_symbol) of
                  Inl e \<Rightarrow> (Raised e, st1)
                | Inr q \<Rightarrow> (Returned (Some q), st1)))"

text \<open>
  \<open>for attempt in range(3)\<close>, with the \<open>except Exception\<close> clause: sleep and go on while
  \<open>attempt < 2\<close>, return \<open>None\<close> otherwise; \<open>None\<close> also when the loop runs out.
\<close>

fun fetch_attempts ::
  "env \<Rightarrow> string \<Rightarrow> nat list \<Rightarrow> nat \<Rightarrow> state \<Rightarrow> (exn + quote option) \<times> state" where
  "fetch_attempts ev clean_symbol [] client st = (Inr None, st)"
| "fetch_attempts ev clean_symbol (attempt # rest) client st =
     (case attempt_body ev clean_symbol client st of
        (Returned r, st') \<Rightarrow> (Inr r, st')
      | (Retry_with client', st') \<Rightarrow> fetch_attempts ev clean_symbol rest client' st'
      | (Raised e, st') \<Rightarrow>
          if attempt < 2
          then fetch_attempts ev clean_symbol rest client
                 (emit (Ev_sleep (0.5 * real (attempt + 1))) st')
          else (Inr None, st'))"

definition fetch_nse_price :: "env \<Rightarrow> string \<Rightarrow> state \<Rightarrow> (exn + quote option) \<times> state" where
  "fetch_nse_price ev symbol st =
     (let clean_symbol = py_remove ''.BO'' (py_remove ''.NS'' (py_upper symbol)) in
      case get_client ev st of
        (client, st1) \<Rightarrow> fetch_attempts ev clean_symbol [0..<3] client st1)"

text \<open>The alias table and its lookup.\<close>

definition COMMON_NAMES_TO_SYMBOL :: "(string \<times> string) list" where
  "COMMON_NAMES_TO_SYMBOL = [
     (''tcs'', ''TCS''),
     (''tata consultancy'', ''TCS''),
     (''tata consultancy services'', ''TCS''),
     (''infosys'', ''INFY''),
     (''infy'', ''INFY''),
     (''reliance'', ''RELIANCE''),
     (''reliance industries'', ''RELIANCE''),
     (''hdfc bank'', ''HDFCBANK''),
     (''hdfcbank'', ''HDFCBANK''),
     (''icici bank'', ''ICICIBANK''),
     (''icicibank'', ''ICICIBANK''),
     (''itc'', ''ITC''),
     (''itc limited'', ''ITC''),
     (''sbi'', ''SBIN''),
     (''state bank'', ''SBIN''),
     (''state bank of india'', ''SBIN''),
     (''kotak'', ''KOTAKBANK''),
     (''kotak bank'', ''KOTAKBANK''),
     (''bharti airtel'', ''BHARTIARTL''),
     (''airtel'', ''BHARTIARTL''),
     (''larsen'', ''LT''),
     (''l&t'', ''LT''),
     (''larsen toubro'', ''LT''),
     (''astral'', ''ASTRAL''),
     (''astral limited'', ''ASTRAL''),
     (''laurus labs'', ''LAURUSLABS''),
     (''lauruslabs'', ''LAURUSLABS''),
     (''wipro'', ''WIPRO''),
     (''maruti'', ''MARUTI''),
     (''maruti suzuki'', ''MARUTI''),
     (''asian paints'', ''ASIANPAINT''),
     (''asianpaint'', ''ASIANPAINT''),
     (''titan'', ''TITAN''),
     (''hindustan unilever'', ''HINDUNILVR''),
     (''hul'', ''HINDUNILVR'')]"

definition resolve_symbol_locally :: "string \<Rightarrow> string option" where
  "resolve_symbol_locally query =
     (let normalized = py_lower (py_strip query) in map_of COMMON_NAMES_TO_SYMBOL normalized)"

section \<open>yahoo_client.py\<close>

text \<open>
  The loop of \<open>search_nse_symbol\<close> over \<open>data.get("quotes", [])\<close>. The three tests are
  joined by \<open>and\<close>, so a later one is evaluated only when the earlier ones hold.
  \<open>item.get("exchange") == "NSI"\<close> holds exactly for the string \<open>NSI\<close>; \<open>endswith\<close> is a
  method of strings only. The value returned, \<open>item["symbol"]\<close>, is the entry that
  \<open>item.get("symbol", "")\<close> has just read.
\<close>

fun yahoo_scan :: "json list \<Rightarrow> exn + string option" where
  "yahoo_scan [] = Inr None"
| "yahoo_scan (item # items) =
     ebind (py_get item ''exchange'' JNull) (\<lambda>exchange.
       if exchange \<noteq> JStr ''NSI'' then yahoo_scan items
       else ebind (py_get item ''quoteType'' JNull) (\<lambda>quote_type.
         if quote_type \<noteq> JStr ''EQUITY'' then yahoo_scan items
         else ebind (py_get item ''symbol'' (JStr '''')) (\<lambda>v.
           case v of
             JStr s \<Rightarrow> if py_endswith s ''.NS'' then Inr (Some s) else yahoo_scan items
           | _ \<Rightarrow> Inl AttributeError)))"

text \<open>
  The request of the Yahoo search goes through a client of its own
  (\<open>async with httpx.AsyncClient(...)\<close>), which is open while it is used.
\<close>

definition yahoo_search_body :: "env \<Rightarrow> string \<Rightarrow> state \<Rightarrow> (exn + string option) \<times> state" where
  "yahoo_search_body ev name st =
     (let st' = emit (Ev_get None (YAHOO_SEARCH_URL name)) st in
      case http_get ev (trace st') of
        Transport_error \<Rightarrow> (Inl TransportError, st')
      | Response status body \<Rightarrow>
          if status \<noteq> 200 then (Inr None, st')
          else (ebind (resp_json body)
                  (\<lambda>data. ebind (py_get data ''quotes'' (JArr []))
                    (\<lambda>quotes. ebind (py_iter quotes) yahoo_scan)), st'))"

definition yahoo_search_nse_symbol :: "env \<Rightarrow> string \<Rightarrow> state \<Rightarrow> (exn + string option) \<times> state" where
  "yahoo_search_nse_symbol ev name st =
     try_except (yahoo_search_body ev name st) (\<lambda>e s. (Inr None, s))"

text \<open>
  \<open>_fetch_ltp_sync\<close>. An exception of \<open>yf.Ticker(symbol)\<close> or of \<open>ticker.fast_info\<close> goes
  to the \<open>except\<close> clause. \<open>getattr(info, 'last_price', None)\<close> turns an \<open>AttributeError\<close>
  of the attribute into \<open>None\<close>, which leads on to the history, and lets every other
  exception through. Prices are taken as real numbers.
\<close>

definition fetch_ltp_body :: "env \<Rightarrow> string \<Rightarrow> state \<Rightarrow> (exn + real option) \<times> state" where
  "fetch_ltp_body ev symbol st =
     (let st1 = emit (Ev_fast_info symbol) st;
          from_history = (\<lambda>u::unit.
            let st2 = emit (Ev_history symbol) st1 in
            case yf_history ev (trace st2) of
              Hist_raises e \<Rightarrow> (Inl e, st2)
            | Hist_empty \<Rightarrow> (Inr None, st2)
            | Hist_close x \<Rightarrow> (Inr (Some x), st2))
      in case yf_last_price ev (trace st1) of
           Ticker_raises e \<Rightarrow> (Inl e, st1)
         | Price p \<Rightarrow> (Inr (Some p), st1)
         | Price_none \<Rightarrow> from_history ()
         | Price_raises e \<Rightarrow> if e = AttributeError then from_history () else (Inl e, st1))"

definition fetch_ltp_sync :: "env \<Rightarrow> string \<Rightarrow> state \<Rightarrow> (exn + real option) \<times> state" where
  "fetch_ltp_sync ev symbol st =
     try_except (fetch_ltp_body ev symbol st) (\<lambda>e s. (Inr None, s))"

text \<open>\<open>fetch_ltp\<close> runs \<open>_fetch_ltp_sync\<close> on the thread pool and returns its result.\<close>

definition fetch_ltp :: "env \<Rightarrow> string \<Rightarrow> state \<Rightarrow> (exn + real option) \<times> state" where
  "fetch_ltp ev symbol st = fetch_ltp_sync ev symbol st"

section \<open>main.py\<close>

text \<open>
  \<open>search_stock\<close>. \<open>now_get\<close> and \<open>now_set\<close> are the clock readings taken inside
  \<open>symbol_cache.get\<close> and \<open>symbol_cache.set\<close>. A cached or found symbol counts only when
  it is truthy, that is, a non-empty string.
\<close>

definition truthy :: "string option \<Rightarrow> bool" where
  "truthy r = (case r of None \<Rightarrow> False | Some s \<Rightarrow> s \<noteq> [])"

definition search_stock ::
  "env \<Rightarrow> string \<Rightarrow> real \<Rightarrow> real \<Rightarrow> state \<Rightarrow> (exn + string) \<times> state" where
  "search_stock ev name now_get now_set st =
     (let query = py_lower (py_strip name) in
      case TTLCache_get (symbol_cache st) query now_get of
        (cached, sc) \<Rightarrow>
          let st1 = st\<lparr>symbol_cache := sc\<rparr> in
          if truthy cached then (Inr (the cached), st1)
          else (case yahoo_search_nse_symbol ev query st1 of
                  (Inl e, st2) \<Rightarrow> (Inl e, st2)
                | (Inr symbol, st2) \<Rightarrow>
                    if \<not> truthy symbol then (Inl (HTTPException 404), st2)
                    else (case TTLCache_set (symbol_cache st2) query (the symbol) now_set of
                            Inl e \<Rightarrow> (Inl e, st2)
                          | Inr sc' \<Rightarrow> (Inr (the symbol), st2\<lparr>symbol_cache := sc'\<rparr>))))"

text \<open>\<open>get_price\<close>; the response carries the ticker and the price.\<close>

definition get_price :: "env \<Rightarrow> string \<Rightarrow> state \<Rightarrow> (exn + (string \<times> real)) \<times> state" where
  "get_price ev symbol st =
     (let ticker = py_upper (py_strip symbol) in
      case fetch_ltp ev ticker st of
        (Inl e, st') \<Rightarrow> (Inl e, st')
      | (Inr ltp, st') \<Rightarrow>
          (case ltp of
             None \<Rightarrow> (Inl (HTTPException 404), st')
           | Some p \<Rightarrow> if p \<le> 0 then (Inl (HTTPException 404), st') else (Inr (ticker, p), st')))"

section \<open>Upstream behaviours used in the examples\<close>

text \<open>An upstream that fails every request in transport.\<close>

definition upstream_down :: env where
  "upstream_down = \<lparr>http_get = (\<lambda>tr. Transport_error),
     yf_last_price = (\<lambda>tr. Price_raises TransportError),
     yf_history = (\<lambda>tr. Hist_raises TransportError)\<rparr>"

text \<open>An upstream that answers every request with status 401.\<close>

definition upstream_401 :: env where
  "upstream_401 = \<lparr>http_get = (\<lambda>tr. Response 401 None),
     yf_last_price = (\<lambda>tr. Price_none),
     yf_history = (\<lambda>tr. Hist_empty)\<rparr>"

text \<open>
  An NSE autocomplete that answers \<open>{"symbols": [{"symbol": "tcs"}]}\<close>, and a Yahoo
  search whose only candidate is listed on another exchange.
\<close>

definition upstream_autocomplete :: env where
  "upstream_autocomplete =
     \<lparr>http_get = (\<lambda>tr. Response 200 (Some (JObj [(''symbols'', JArr [JObj [(''symbol'', JStr ''tcs'')]])]))),
      yf_last_price = (\<lambda>tr. Price 3456.5),
      yf_history = (\<lambda>tr. Hist_empty)\<rparr>"

definition upstream_bse_only :: env where
  "upstream_bse_only =
     \<lparr>http_get = (\<lambda>tr. Response 200 (Some (JObj [(''quotes'',
         JArr [JObj [(''exchange'', JStr ''BSE''), (''quoteType'', JStr ''EQUITY''),
                     (''symbol'', JStr ''TCS.BO'')]])]))),
      yf_last_price = (\<lambda>tr. Price 3456.5),
      yf_history = (\<lambda>tr. Hist_empty)\<rparr>"

definition upstream_nse_listing :: env where
  "upstream_nse_listing =
     \<lparr>http_get = (\<lambda>tr. Response 200 (Some (JObj [(''quotes'',
         JArr [JObj [(''exchange'', JStr ''NSI''), (''quoteType'', JStr ''EQUITY''),
                     (''symbol'', JStr ''TCS.NS'')]])]))),
      yf_last_price = (\<lambda>tr. Price 3456.5),
      yf_history = (\<lambda>tr. Hist_empty)\<rparr>"



definition upstream_unavailable :: env where
  "upstream_unavailable = \<lparr>http_get = (\<lambda>tr. Response 503 None),
     yf_last_price = (\<lambda>tr. Price_none),
     yf_history = (\<lambda>tr. Hist_close 3460)\<rparr>"

text \<open>
  A price source whose price moves with every call: the answer depends on how many
  events the trace holds.
\<close>

definition upstream_ticking :: env where
  "upstream_ticking = \<lparr>http_get = (\<lambda>tr. Transport_error),
     yf_last_price = (\<lambda>tr. Price (3456 + real (length tr))),
     yf_history = (\<lambda>tr. Hist_empty)\<rparr>"


section \<open>Auxiliary notions for the proofs\<close>

text \<open>The capacity bound, in the form that also fits a cache created with a
  non-positive \<open>max_items\<close> (whose store stays empty).\<close>

definition cap_inv :: "'v TTLCache \<Rightarrow> bool" where
  "cap_inv c \<longleftrightarrow> int (length (store c)) \<le> max (max_items c) 0"

text \<open>The store lists the keys in the order of their insertion stamps, and every stamp
  in use is the number of a call already made.\<close>

definition stamp_inv :: "'v TTLCache \<times> (string \<Rightarrow> nat) \<times> nat \<Rightarrow> bool" where
  "stamp_inv s \<longleftrightarrow> (case s of (c, b, n) \<Rightarrow>
     sorted_wrt (\<lambda>k k'. b k < b k') (map fst (store c)) \<and> (\<forall>p \<in> set (store c). b (fst p) < n))"

text \<open>The state once the first NSE session has been created and warmed up.\<close>

definition session_state :: state where
  "session_state = initial_state\<lparr>nse_client := Some 0, fresh := 1,
     trace := [Ev_create 0, Ev_get (Some 0) NSE_BASE_URL]\<rparr>"

text \<open>The state after a 401 answer to a quote request sent on client \<open>c\<close>: the request,
  the old client closed, a new client created and warmed up.\<close>

definition rebuilt :: "string \<Rightarrow> nat \<Rightarrow> state \<Rightarrow> state" where
  "rebuilt tk c st = st\<lparr>nse_client := Some (fresh st), closed_clients := insert c (closed_clients st),
               fresh := Suc (fresh st),
               trace := trace st @ [Ev_get (Some c) (NSE_QUOTE_URL tk), Ev_close c,
                                    Ev_create (fresh st), Ev_get (Some (fresh st)) NSE_BASE_URL]\<rparr>"

section \<open>Properties of the cache\<close>

lemma map_of_od_assign: "map_of (od_assign k v ps) k = Some v"
  by (induction ps) auto

lemma map_of_od_assign_other: "k' \<noteq> k \<Longrightarrow> map_of (od_assign k v ps) k' = map_of ps k'"
  by (induction ps) auto

lemma keys_od_assign: "fst ` set (od_assign k v ps) = insert k (fst ` set ps)"
  by (induction ps) auto

lemma length_od_assign_le: "length (od_assign k v ps) \<le> Suc (length ps)"
  by (induction ps) auto

lemma od_assign_new: "k \<notin> fst ` set ps \<Longrightarrow> od_assign k v ps = ps @ [(k, v)]"
  by (induction ps) auto

lemma od_assign_present: "k \<in> fst ` set ps \<Longrightarrow> map fst (od_assign k v ps) = map fst ps"
  by (induction ps) auto

lemma length_od_pop_le: "length (od_pop k ps) \<le> length ps"
  by (simp add: od_pop_def)

lemma od_pop_absent: "k \<notin> fst ` set (od_pop k ps)"
  by (auto simp: od_pop_def)

text \<open>
  The expiry rule of \<open>get\<close>. For every cache and every key that is stored with time
  stamp \<open>ts\<close>: a \<open>get\<close> at a clock reading \<open>now\<close> with \<open>now - ts > ttl\<close> returns \<open>None\<close> and
  removes exactly that key from the store. With \<open>ttl = 0\<close>, a \<open>get\<close> after a \<open>set\<close> of the
  same key returns \<open>None\<close> and purges the entry when its clock reading is strictly later
  than the one the \<open>set\<close> stored.
\<close>

lemma TTLCache_get_expired:
  "(map_of (store c) key = Some (val, ts) \<and> real_of_int (ttl c) < now - ts \<longrightarrow>
      TTLCache_get c key now = (None, c\<lparr>store := od_pop key (store c)\<rparr>) \<and>
      key \<notin> fst ` set (store (snd (TTLCache_get c key now))))
   \<and> (ttl c = 0 \<and> TTLCache_set c key val t0 = Inr c1 \<and> t0 < t1 \<longrightarrow>
      fst (TTLCache_get c1 key t1) = None \<and>
      key \<notin> fst ` set (store (snd (TTLCache_get c1 key t1))))"
proof (intro conjI impI)
  assume h: "map_of (store c) key = Some (val, ts) \<and> real_of_int (ttl c) < now - ts"
  then show g: "TTLCache_get c key now = (None, c\<lparr>store := od_pop key (store c)\<rparr>)"
    by (simp add: TTLCache_get_def)
  show "key \<notin> fst ` set (store (snd (TTLCache_get c key now)))"
    using od_pop_absent[of key "store c"] by (simp add: g)
next
  assume h: "ttl c = 0 \<and> TTLCache_set c key val t0 = Inr c1 \<and> t0 < t1"
  then have m: "map_of (store c1) key = Some (val, t0)" and t: "ttl c1 = 0"
    by (auto simp: TTLCache_set_def od_popitem_first_def map_of_od_assign
             split: if_splits list.splits)
  with h have g: "TTLCache_get c1 key t1 = (None, c1\<lparr>store := od_pop key (store c1)\<rparr>)"
    by (simp add: TTLCache_get_def)
  show "fst (TTLCache_get c1 key t1) = None" by (simp add: g)
  show "key \<notin> fst ` set (store (snd (TTLCache_get c1 key t1)))"
    using od_pop_absent[of key "store c1"] by (simp add: g)
qed

lemma TTLCache_get_expired_example:
  "fst (TTLCache_get \<lparr>ttl = 30, max_items = 256, store = [(''tcs'', (''TCS.NS'', 100))]\<rparr> ''tcs'' 131) = None
   \<and> store (snd (TTLCache_get \<lparr>ttl = 30, max_items = 256, store = [(''tcs'', (''TCS.NS'', 100))]\<rparr> ''tcs'' 131)) = []
   \<and> TTLCache_set (TTLCache_init 0 256) ''tcs'' ''TCS.NS'' 100
       = Inr \<lparr>ttl = 0, max_items = 256, store = [(''tcs'', (''TCS.NS'', 100))]\<rparr>
   \<and> fst (TTLCache_get \<lparr>ttl = 0, max_items = 256, store = [(''tcs'', (''TCS.NS'', 100))]\<rparr> ''tcs'' 101) = None"
  using TTLCache_get_expired[of "\<lparr>ttl = 30, max_items = 256, store = [(''tcs'', (''TCS.NS'', 100))]\<rparr>"
          "''tcs''" "''TCS.NS''" 100 131 100
          "\<lparr>ttl = 30, max_items = 256, store = [(''tcs'', (''TCS.NS'', 100))]\<rparr>" 101]
        TTLCache_get_expired[of "TTLCache_init 0 256" "''tcs''" "''TCS.NS''" 100 101 100
          "\<lparr>ttl = 0, max_items = 256, store = [(''tcs'', (''TCS.NS'', 100))]\<rparr>" 101]
  by (simp add: TTLCache_init_def TTLCache_set_def od_pop_def)

text \<open>
  Claim C3, at a zero TTL. The claim expects that with \<open>ttl = 0\<close> a \<open>get\<close> right after a
  \<open>set\<close> returns \<open>None\<close>, and so does the comment on \<open>price_cache\<close> in \<open>main.py\<close> ("always
  fetch fresh LTP"). The code compares \<open>now - ts > ttl\<close> strictly: whenever the \<open>get\<close> reads
  the clock value that the \<open>set\<close> stored, the difference is \<open>0\<close>, the stored value is
  returned and the entry stays in the store.
\<close>

theorem TTLCache_ttl0_same_reading:
  "ttl c = 0 \<and> TTLCache_set c key val t0 = Inr c1 \<longrightarrow>
     TTLCache_get c1 key t0 = (Some val, c1) \<and> map_of (store c1) key = Some (val, t0)"
proof
  assume h: "ttl c = 0 \<and> TTLCache_set c key val t0 = Inr c1"
  then have m: "map_of (store c1) key = Some (val, t0)" and t: "ttl c1 = 0"
    by (auto simp: TTLCache_set_def od_popitem_first_def map_of_od_assign
             split: if_splits list.splits)
  then show "TTLCache_get c1 key t0 = (Some val, c1) \<and> map_of (store c1) key = Some (val, t0)"
    by (simp add: TTLCache_get_def)
qed

theorem TTLCache_ttl0_same_reading_witness:
  "ttl (TTLCache_init 0 256 :: string TTLCache) = 0 \<and>
   TTLCache_set (TTLCache_init 0 256) ''tcs'' ''TCS.NS'' 100
       = Inr \<lparr>ttl = 0, max_items = 256, store = [(''tcs'', (''TCS.NS'', 100))]\<rparr> \<and>
   TTLCache_get \<lparr>ttl = 0, max_items = 256, store = [(''tcs'', (''TCS.NS'', 100))]\<rparr> ''tcs'' 100
       = (Some ''TCS.NS'', \<lparr>ttl = 0, max_items = 256, store = [(''tcs'', (''TCS.NS'', 100))]\<rparr>)"
proof -
  have a: "ttl (TTLCache_init 0 256 :: string TTLCache) = 0"
    by (simp add: TTLCache_init_def)
  have b: "TTLCache_set (TTLCache_init 0 256) ''tcs'' ''TCS.NS'' 100
       = Inr \<lparr>ttl = 0, max_items = 256, store = [(''tcs'', (''TCS.NS'', 100))]\<rparr>"
    by (simp add: TTLCache_init_def TTLCache_set_def)
  from TTLCache_ttl0_same_reading[of "TTLCache_init 0 256" "''tcs''" "''TCS.NS''" 100
         "\<lparr>ttl = 0, max_items = 256, store = [(''tcs'', (''TCS.NS'', 100))]\<rparr>"] a b
  show ?thesis by simp
qed


lemma TTLCache_get_fields:
  "ttl (snd (TTLCache_get c key now)) = ttl c"
  "max_items (snd (TTLCache_get c key now)) = max_items c"
  by (auto simp: TTLCache_get_def split: option.splits)

lemma TTLCache_get_length:
  "length (store (snd (TTLCache_get c key now))) \<le> length (store c)"
  by (auto simp: TTLCache_get_def length_od_pop_le split: option.splits)

lemma TTLCache_set_fields:
  "TTLCache_set c key val now = Inr c' \<Longrightarrow> ttl c' = ttl c \<and> max_items c' = max_items c"
  by (auto simp: TTLCache_set_def split: if_splits sum.splits)

lemma TTLCache_set_length:
  assumes "TTLCache_set c key val now = Inr c'" and "cap_inv c"
  shows "int (length (store c')) \<le> max_items c"
proof (cases "int (length (store c)) \<ge> max_items c")
  case True
  with assms(1) obtain p rest where s: "store c = p # rest"
    and c': "c' = c\<lparr>store := od_assign key (val, now) rest\<rparr>"
    by (auto simp: TTLCache_set_def od_popitem_first_def split: list.splits)
  have "length (od_assign key (val, now) rest) \<le> Suc (length rest)"
    by (rule length_od_assign_le)
  with s c' assms(2) show ?thesis by (simp add: cap_inv_def)
next
  case False
  with assms(1) have c': "c' = c\<lparr>store := od_assign key (val, now) (store c)\<rparr>"
    by (simp add: TTLCache_set_def)
  have "length (od_assign key (val, now) (store c)) \<le> Suc (length (store c))"
    by (rule length_od_assign_le)
  with False c' show ?thesis by simp
qed

lemma run_op_fields: "ttl (run_op c op) = ttl c" "max_items (run_op c op) = max_items c"
  by (cases op; auto simp: TTLCache_get_fields dest: TTLCache_set_fields split: sum.splits)+

lemma run_op_cap_inv: "cap_inv c \<Longrightarrow> cap_inv (run_op c op)"
proof (cases op)
  case (Op_get key now)
  assume "cap_inv c"
  with TTLCache_get_length[of c key now] show ?thesis
    by (simp add: Op_get cap_inv_def TTLCache_get_fields)
next
  case (Op_set key val now)
  assume i: "cap_inv c"
  show ?thesis
  proof (cases "TTLCache_set c key val now")
    case (Inl e)
    with i show ?thesis by (simp add: Op_set)
  next
    case (Inr c')
    from TTLCache_set_length[OF Inr i] TTLCache_set_fields[OF Inr]
    show ?thesis by (simp add: Op_set Inr cap_inv_def)
  qed
qed

lemma run_ops_fields: "ttl (run_ops c ops) = ttl c" "max_items (run_ops c ops) = max_items c"
  by (induction ops arbitrary: c; simp add: run_ops_def run_op_fields)+

lemma run_ops_cap_inv: "cap_inv c \<Longrightarrow> cap_inv (run_ops c ops)"
  by (induction ops arbitrary: c) (simp_all add: run_ops_def run_op_cap_inv)

lemma cap_inv_init: "cap_inv (TTLCache_init t m)"
  by (simp add: cap_inv_def TTLCache_init_def)

lemma TTLCache_set_returns:
  assumes "1 \<le> max_items c"
  shows "\<exists>c'. TTLCache_set c key val now = Inr c'"
  using assms by (cases "store c") (auto simp: TTLCache_set_def od_popitem_first_def)

text \<open>
  Claim C5. Take a cache created with any \<open>ttl_seconds\<close> and \<open>max_items\<close> and any sequence of
  \<open>get\<close> and \<open>set\<close> calls on it. After every further \<open>set\<close> that returns, the store holds
  at most \<open>max_items\<close> entries. With \<open>max_items \<ge> 1\<close> every \<open>set\<close> returns, and with
  \<open>max_items \<ge> 0\<close> the bound holds after every call of the sequence, raising or not.
\<close>

theorem TTLCache_capacity_bound:
  "(TTLCache_set (run_ops (TTLCache_init t m) ops) key val now = Inr c'
      \<longrightarrow> int (length (store c')) \<le> m) \<and>
   (1 \<le> m \<longrightarrow> (\<exists>c''. TTLCache_set (run_ops (TTLCache_init t m) ops) key val now = Inr c'')) \<and>
   (0 \<le> m \<longrightarrow> int (length (store (run_ops (TTLCache_init t m) ops))) \<le> m)"
proof (intro conjI impI)
  let ?c = "run_ops (TTLCache_init t m) ops"
  have i: "cap_inv ?c" by (rule run_ops_cap_inv[OF cap_inv_init])
  have m: "max_items ?c = m" by (simp add: run_ops_fields TTLCache_init_def)
  { assume "TTLCache_set ?c key val now = Inr c'"
    from TTLCache_set_length[OF this i] m show "int (length (store c')) \<le> m" by simp }
  { assume "1 \<le> m"
    with m TTLCache_set_returns[of ?c key val now]
    show "\<exists>c''. TTLCache_set ?c key val now = Inr c''" by simp }
  { assume "0 \<le> m"
    with i m show "int (length (store ?c)) \<le> m" by (simp add: cap_inv_def) }
qed

theorem TTLCache_capacity_bound_witness:
  "TTLCache_set (run_ops (TTLCache_init 30 2) [Op_set ''a'' (1::nat) 10, Op_set ''b'' 2 11, Op_get ''a'' 12])
       ''c'' 3 13 = Inr \<lparr>ttl = 30, max_items = 2, store = [(''b'', (2, 11)), (''c'', (3, 13))]\<rparr>
   \<and> int (length (store \<lparr>ttl = 30, max_items = 2, store = [(''b'', (2::nat, 11)), (''c'', (3, 13))]\<rparr>)) \<le> 2
   \<and> (1::int) \<le> 2 \<and> (0::int) \<le> 2
   \<and> int (length (store (run_ops (TTLCache_init 30 2)
         [Op_set ''a'' (1::nat) 10, Op_set ''b'' 2 11, Op_get ''a'' 12]))) \<le> 2"
  using TTLCache_capacity_bound[of 30 2 "[Op_set ''a'' (1::nat) 10, Op_set ''b'' 2 11, Op_get ''a'' 12]"
          "''c''" 3 13 "\<lparr>ttl = 30, max_items = 2, store = [(''b'', (2, 11)), (''c'', (3, 13))]\<rparr>"]
  by (simp add: run_ops_def TTLCache_init_def TTLCache_set_def TTLCache_get_def
        od_popitem_first_def)


lemma fst_stamp_step: "fst (stamp_step s op) = run_op (fst s) op"
  by (cases s; cases op) simp_all

lemma fst_foldl_stamp_step: "fst (foldl stamp_step s ops) = run_ops (fst s) ops"
  by (induction ops arbitrary: s) (simp_all add: run_ops_def fst_stamp_step)

lemma fst_stamp_run: "fst (stamp_run c ops) = run_ops c ops"
  by (simp add: stamp_run_def fst_foldl_stamp_step)

lemma sorted_wrt_tl: "sorted_wrt P xs \<Longrightarrow> sorted_wrt P (tl xs)"
  by (cases xs) simp_all

lemma map_fst_od_pop: "map fst (od_pop k ps) = filter (\<lambda>k'. k' \<noteq> k) (map fst ps)"
  by (simp add: od_pop_def filter_map comp_def)

lemma stamp_inv_get:
  assumes "stamp_inv (c, b, n)"
  shows "stamp_inv (snd (TTLCache_get c key now), b, Suc n)"
proof -
  have "store (snd (TTLCache_get c key now)) = store c \<or>
        store (snd (TTLCache_get c key now)) = od_pop key (store c)"
    by (auto simp: TTLCache_get_def split: option.splits)
  then show ?thesis
  proof
    assume "store (snd (TTLCache_get c key now)) = store c"
    with assms show ?thesis by (auto simp: stamp_inv_def less_Suc_eq)
  next
    assume e: "store (snd (TTLCache_get c key now)) = od_pop key (store c)"
    from assms have "sorted_wrt (\<lambda>k k'. b k < b k') (filter (\<lambda>k'. k' \<noteq> key) (map fst (store c)))"
      by (simp add: stamp_inv_def sorted_wrt_filter)
    moreover have "set (od_pop key (store c)) \<subseteq> set (store c)"
      by (auto simp: od_pop_def)
    moreover from assms have "\<forall>p \<in> set (store c). b (fst p) < Suc n"
      by (auto simp: stamp_inv_def less_Suc_eq)
    ultimately show ?thesis
      by (simp add: stamp_inv_def e map_fst_od_pop) blast
  qed
qed

lemma stamp_inv_assign:
  assumes s: "sorted_wrt (\<lambda>k k'. b k < b k') (map fst ps)" and n: "\<forall>p \<in> set ps. b (fst p) < n"
  shows "stamp_inv (c\<lparr>store := od_assign key v ps\<rparr>,
            (if key \<in> fst ` set ps then b else b(key := n)), Suc n)"
proof (cases "key \<in> fst ` set ps")
  case True
  then have "map fst (od_assign key v ps) = map fst ps" by (rule od_assign_present)
  moreover have "\<forall>p \<in> set (od_assign key v ps). b (fst p) < Suc n"
  proof
    fix p assume "p \<in> set (od_assign key v ps)"
    then have "fst p \<in> fst ` set (od_assign key v ps)" by (rule imageI)
    with True have "fst p \<in> fst ` set ps" by (simp add: keys_od_assign insert_absorb)
    with n show "b (fst p) < Suc n" by (auto simp: less_Suc_eq)
  qed
  ultimately show ?thesis using True s by (simp add: stamp_inv_def)
next
  case False
  then have a: "od_assign key v ps = ps @ [(key, v)]" by (rule od_assign_new)
  have "sorted_wrt (\<lambda>k k'. (b(key := n)) k < (b(key := n)) k') (map fst ps)"
    using s False by (auto intro!: sorted_wrt_mono_rel[OF _ s])
  with False n show ?thesis
    by (auto simp: stamp_inv_def a sorted_wrt_append less_Suc_eq)
qed

lemma stamp_inv_step: "stamp_inv s \<Longrightarrow> stamp_inv (stamp_step s op)"
proof -
  assume i: "stamp_inv s"
  obtain c b n where s: "s = (c, b, n)" by (cases s)
  show ?thesis
  proof (cases op)
    case (Op_get key now)
    with i s stamp_inv_get[of c b n key now] show ?thesis by simp
  next
    case (Op_set key val now)
    let ?rest = "if int (length (store c)) \<ge> max_items c then tl (store c) else store c"
    show ?thesis
    proof (cases "TTLCache_set c key val now")
      case (Inl e)
      with i s show ?thesis by (auto simp: Op_set stamp_inv_def less_Suc_eq)
    next
      case (Inr c')
      then have c': "c' = c\<lparr>store := od_assign key (val, now) ?rest\<rparr>"
        by (auto simp: TTLCache_set_def od_popitem_first_def split: if_splits list.splits)
      from i s have "sorted_wrt (\<lambda>k k'. b k < b k') (map fst ?rest)"
        by (auto simp: stamp_inv_def map_tl sorted_wrt_tl)
      moreover have "set ?rest \<subseteq> set (store c)"
        by (cases "store c") auto
      moreover from i s have "\<forall>p \<in> set (store c). b (fst p) < n"
        by (simp add: stamp_inv_def)
      ultimately have "\<forall>p \<in> set ?rest. b (fst p) < n"
        by blast
      moreover note \<open>sorted_wrt (\<lambda>k k'. b k < b k') (map fst ?rest)\<close>
      ultimately have "stamp_inv (c\<lparr>store := od_assign key (val, now) ?rest\<rparr>,
            (if key \<in> fst ` set ?rest then b else b(key := n)), Suc n)"
        by (intro stamp_inv_assign)
      then show ?thesis by (simp add: s Op_set Inr c')
    qed
  qed
qed

lemma stamp_inv_foldl: "stamp_inv s \<Longrightarrow> stamp_inv (foldl stamp_step s ops)"
  by (induction ops arbitrary: s) (simp_all add: stamp_inv_step)

lemma stamp_inv_run: "stamp_inv (stamp_run (TTLCache_init t m) ops)"
  unfolding stamp_run_def
  by (rule stamp_inv_foldl) (simp add: stamp_inv_def TTLCache_init_def)

lemma head_earliest:
  assumes "store (run_ops (TTLCache_init t m) ops) = p # rest" and "q \<in> set rest"
  shows "insertion_stamp (TTLCache_init t m) ops (fst p) < insertion_stamp (TTLCache_init t m) ops (fst q)"
proof -
  obtain c b n where s: "stamp_run (TTLCache_init t m) ops = (c, b, n)"
    by (cases "stamp_run (TTLCache_init t m) ops")
  with fst_stamp_run[of "TTLCache_init t m" ops] have c: "c = run_ops (TTLCache_init t m) ops" by simp
  from stamp_inv_run[of t m ops] s have "sorted_wrt (\<lambda>k k'. b k < b k') (map fst (store c))"
    by (simp add: stamp_inv_def)
  with assms c have "b (fst p) < b (fst q)" by auto
  with s show ?thesis by (simp add: insertion_stamp_def)
qed


lemma sorted_wrt_less_distinct:
  "sorted_wrt (\<lambda>k k'. (b k :: nat) < b k') ks \<Longrightarrow> distinct ks"
  by (induction ks) auto

lemma run_ops_distinct: "distinct (map fst (store (run_ops (TTLCache_init t m) ops)))"
proof -
  obtain c b n where s: "stamp_run (TTLCache_init t m) ops = (c, b, n)"
    by (cases "stamp_run (TTLCache_init t m) ops")
  with fst_stamp_run[of "TTLCache_init t m" ops] have c: "c = run_ops (TTLCache_init t m) ops" by simp
  from stamp_inv_run[of t m ops] s have "sorted_wrt (\<lambda>k k'. b k < b k') (map fst (store c))"
    by (simp add: stamp_inv_def)
  with c show ?thesis by (auto dest: sorted_wrt_less_distinct)
qed

lemma TTLCache_get_hit: "fst (TTLCache_get c k t') = Some v \<Longrightarrow> snd (TTLCache_get c k t') = c"
  by (auto simp: TTLCache_get_def split: option.splits if_splits)

text \<open>
  Claim C4, in the form the code satisfies. Take any cache state reached from an empty
  cache by \<open>get\<close> and \<open>set\<close> calls, and a further \<open>set(key, value)\<close> that returns. The store
  never holds more than \<open>max_items\<close> entries. Below capacity nothing is evicted. At
  capacity the first entry of the store is evicted, whether or not \<open>key\<close> is already
  present; that entry is the one inserted earliest among the current entries (it has the
  smallest insertion stamp), and a \<open>get\<close> that returns a value changes nothing, so reads
  do not influence which entry goes.
\<close>

theorem TTLCache_set_eviction:
  assumes c: "c = run_ops (TTLCache_init t m) ops" and s: "TTLCache_set c key val now = Inr c'"
  shows "int (length (store c)) \<le> m \<and>
    (int (length (store c)) < m \<longrightarrow>
       store c' = od_assign key (val, now) (store c) \<and>
       fst ` set (store c') = insert key (fst ` set (store c))) \<and>
    (int (length (store c)) = m \<longrightarrow>
       (\<exists>p rest. store c = p # rest \<and> store c' = od_assign key (val, now) rest \<and>
          fst ` set (store c') = insert key (fst ` set rest) \<and> fst p \<notin> fst ` set rest \<and>
          (\<forall>q \<in> set rest. insertion_stamp (TTLCache_init t m) ops (fst p)
                             < insertion_stamp (TTLCache_init t m) ops (fst q)))) \<and>
    (\<forall>k t' v. fst (TTLCache_get c k t') = Some v \<longrightarrow> snd (TTLCache_get c k t') = c)"
proof (intro conjI impI allI)
  have i: "cap_inv c" unfolding c by (rule run_ops_cap_inv[OF cap_inv_init])
  have m: "max_items c = m" by (simp add: c run_ops_fields TTLCache_init_def)
  show le: "int (length (store c)) \<le> m"
  proof (cases "0 \<le> m")
    case True
    with i m show ?thesis by (simp add: cap_inv_def)
  next
    case False
    with i m have "store c = []" by (simp add: cap_inv_def)
    with s m False show ?thesis by (simp add: TTLCache_set_def od_popitem_first_def)
  qed
  { assume "int (length (store c)) < m"
    with s m show "store c' = od_assign key (val, now) (store c)"
      by (auto simp: TTLCache_set_def)
    then show "fst ` set (store c') = insert key (fst ` set (store c))"
      by (simp add: keys_od_assign) }
  { assume e: "int (length (store c)) = m"
    with s m obtain p rest where pr: "store c = p # rest"
      and c': "store c' = od_assign key (val, now) rest"
      by (auto simp: TTLCache_set_def od_popitem_first_def split: list.splits)
    from run_ops_distinct[of t m ops] pr c have d: "fst p \<notin> fst ` set rest" by auto
    have "\<forall>q \<in> set rest. insertion_stamp (TTLCache_init t m) ops (fst p)
                             < insertion_stamp (TTLCache_init t m) ops (fst q)"
      using head_earliest[of t m ops p rest] pr c by blast
    with pr c' d
    show "\<exists>p rest. store c = p # rest \<and> store c' = od_assign key (val, now) rest \<and>
          fst ` set (store c') = insert key (fst ` set rest) \<and> fst p \<notin> fst ` set rest \<and>
          (\<forall>q \<in> set rest. insertion_stamp (TTLCache_init t m) ops (fst p)
                             < insertion_stamp (TTLCache_init t m) ops (fst q))"
      by (auto simp: keys_od_assign) }
  { fix k t' v assume "fst (TTLCache_get c k t') = Some v"
    then show "snd (TTLCache_get c k t') = c" by (rule TTLCache_get_hit) }
qed

theorem TTLCache_set_eviction_witness:
  "run_ops (TTLCache_init 30 2) [Op_set ''a'' (1::nat) 10, Op_set ''b'' 2 11, Op_get ''a'' 12]
     = \<lparr>ttl = 30, max_items = 2, store = [(''a'', (1, 10)), (''b'', (2, 11))]\<rparr> \<and>
   TTLCache_set \<lparr>ttl = 30, max_items = 2, store = [(''a'', (1::nat, 10)), (''b'', (2, 11))]\<rparr> ''c'' 3 13
     = Inr \<lparr>ttl = 30, max_items = 2, store = [(''b'', (2, 11)), (''c'', (3, 13))]\<rparr> \<and>
   int (length (store \<lparr>ttl = 30, max_items = 2, store = [(''a'', (1::nat, 10)), (''b'', (2, 11))]\<rparr>)) = 2 \<and>
   insertion_stamp (TTLCache_init 30 2 :: nat TTLCache)
       [Op_set ''a'' (1::nat) 10, Op_set ''b'' 2 11, Op_get ''a'' 12] ''a''
     < insertion_stamp (TTLCache_init 30 2 :: nat TTLCache)
       [Op_set ''a'' (1::nat) 10, Op_set ''b'' 2 11, Op_get ''a'' 12] ''b'' \<and>
   TTLCache_get \<lparr>ttl = 30, max_items = 2, store = [(''a'', (1::nat, 10)), (''b'', (2, 11))]\<rparr> ''a'' 12
     = (Some 1, \<lparr>ttl = 30, max_items = 2, store = [(''a'', (1, 10)), (''b'', (2, 11))]\<rparr>)"
proof -
  let ?ops = "[Op_set ''a'' (1::nat) 10, Op_set ''b'' 2 11, Op_get ''a'' 12]"
  let ?c = "\<lparr>ttl = 30, max_items = 2, store = [(''a'', (1::nat, 10)), (''b'', (2, 11))]\<rparr>"
  let ?c' = "\<lparr>ttl = 30, max_items = 2, store = [(''b'', (2::nat, 11)), (''c'', (3, 13))]\<rparr>"
  have r: "?c = run_ops (TTLCache_init 30 2) ?ops"
    by (simp add: run_ops_def TTLCache_init_def TTLCache_set_def TTLCache_get_def)
  have s: "TTLCache_set ?c ''c'' 3 13 = Inr ?c'"
    by (simp add: TTLCache_set_def od_popitem_first_def)
  have g: "TTLCache_get ?c ''a'' 12 = (Some 1, ?c)"
    by (simp add: TTLCache_get_def)
  from TTLCache_set_eviction[OF r s]
  have "insertion_stamp (TTLCache_init 30 2 :: nat TTLCache) ?ops ''a''
          < insertion_stamp (TTLCache_init 30 2 :: nat TTLCache) ?ops ''b''"
    by simp
  with r[symmetric] s g show ?thesis by simp
qed

text \<open>
  Claim C4 as the specification words it fails for an overwrite at capacity: with two
  entries in a cache of capacity two, overwriting the key \<open>b\<close> evicts the entry of \<open>a\<close>.
\<close>

theorem TTLCache_overwrite_evicts_counterexample:
  "run_ops (TTLCache_init 30 2) [Op_set ''a'' (1::nat) 10, Op_set ''b'' 2 11]
     = \<lparr>ttl = 30, max_items = 2, store = [(''a'', (1, 10)), (''b'', (2, 11))]\<rparr> \<and>
   TTLCache_set \<lparr>ttl = 30, max_items = 2, store = [(''a'', (1::nat, 10)), (''b'', (2, 11))]\<rparr> ''b'' 3 12
     = Inr \<lparr>ttl = 30, max_items = 2, store = [(''b'', (3, 12))]\<rparr>"
  by (simp add: run_ops_def TTLCache_init_def TTLCache_set_def od_popitem_first_def)


section \<open>Properties of the NSE client\<close>

lemma upt_0_3: "[0..<3] = [0, 1, 2]"
  by (simp add: upt_rec)

lemma emit_fields [simp]:
  "trace (emit e st) = trace st @ [e]"
  "closed_clients (emit e st) = closed_clients st"
  "nse_client (emit e st) = nse_client st"
  "fresh (emit e st) = fresh st"
  "symbol_cache (emit e st) = symbol_cache st"
  "price_cache (emit e st) = price_cache st"
  by (simp_all add: emit_def)

lemma client_get_open:
  "c \<notin> closed_clients st \<Longrightarrow>
   client_get ev c url st =
     (case http_get ev (trace st @ [Ev_get (Some c) url]) of
        Transport_error \<Rightarrow> (Inl TransportError, emit (Ev_get (Some c) url) st)
      | Response status body \<Rightarrow> (Inr (status, body), emit (Ev_get (Some c) url) st))"
  by (simp add: client_get_def Let_def)

lemma new_client_eq:
  "fresh st \<notin> closed_clients st \<Longrightarrow>
   new_client ev st =
     (fresh st, st\<lparr>nse_client := Some (fresh st), fresh := Suc (fresh st),
        trace := trace st @ [Ev_create (fresh st), Ev_get (Some (fresh st)) NSE_BASE_URL]\<rparr>)"
  by (simp add: new_client_def Let_def client_get_open try_except_def emit_def
           split: http_result.splits)

lemma state_ok_fresh: "state_ok st \<Longrightarrow> fresh st \<notin> closed_clients st"
  by (auto simp: state_ok_def)

lemma get_client_cases:
  assumes "state_ok st"
  shows "(nse_client st = Some (fst (get_client ev st)) \<and> fst (get_client ev st) \<notin> closed_clients st
            \<and> snd (get_client ev st) = st)
       \<or> (fst (get_client ev st) = fresh st \<and>
          snd (get_client ev st) = st\<lparr>nse_client := Some (fresh st), fresh := Suc (fresh st),
             trace := trace st @ [Ev_create (fresh st), Ev_get (Some (fresh st)) NSE_BASE_URL]\<rparr>)"
  using state_ok_fresh[OF assms]
  by (auto simp: get_client_def new_client_eq split: option.splits)

lemma get_client_session:
  assumes "state_ok st"
  shows "nse_client (snd (get_client ev st)) = Some (fst (get_client ev st))"
    and "fst (get_client ev st) \<notin> closed_clients (snd (get_client ev st))"
    and "state_ok (snd (get_client ev st))"
    and "closed_clients (snd (get_client ev st)) = closed_clients st"
  using get_client_cases[OF assms, of ev] assms state_ok_fresh[OF assms]
  by (auto simp: state_ok_def less_Suc_eq)

lemma attempt_body_transport:
  assumes "c \<notin> closed_clients st"
    and "http_get ev (trace st @ [Ev_get (Some c) (NSE_QUOTE_URL tk)]) = Transport_error"
  shows "attempt_body ev tk c st = (Raised TransportError, emit (Ev_get (Some c) (NSE_QUOTE_URL tk)) st)"
  using assms by (simp add: attempt_body_def client_get_open)

lemma attempt_body_401:
  assumes ok: "state_ok st" and cur: "nse_client st = Some c" and op: "c \<notin> closed_clients st"
    and r: "http_get ev (trace st @ [Ev_get (Some c) (NSE_QUOTE_URL tk)]) = Response 401 body"
  shows "attempt_body ev tk c st =
           (Retry_with (fresh st),
            st\<lparr>nse_client := Some (fresh st), closed_clients := insert c (closed_clients st),
               fresh := Suc (fresh st),
               trace := trace st @ [Ev_get (Some c) (NSE_QUOTE_URL tk), Ev_close c,
                                    Ev_create (fresh st), Ev_get (Some (fresh st)) NSE_BASE_URL]\<rparr>)"
proof -
  from ok cur have lt: "c < fresh st" by (simp add: state_ok_def)
  let ?st3 = "(aclose c (emit (Ev_get (Some c) (NSE_QUOTE_URL tk)) st))\<lparr>nse_client := None\<rparr>"
  have f: "fresh ?st3 \<notin> closed_clients ?st3"
    using state_ok_fresh[OF ok] lt by (simp add: aclose_def)
  have "get_client ev ?st3 = new_client ev ?st3" by (simp add: get_client_def)
  then show ?thesis
    using r cur op f
    by (simp add: attempt_body_def client_get_open new_client_eq aclose_def emit_def)
qed


lemma fetch_attempts_all_transport:
  assumes down: "\<forall>tr. http_get ev tr = Transport_error" and op: "c \<notin> closed_clients st"
  shows "fetch_attempts ev tk [0, 1, 2] c st =
     (Inr None, st\<lparr>trace := trace st @
        [Ev_get (Some c) (NSE_QUOTE_URL tk), Ev_sleep 0.5,
         Ev_get (Some c) (NSE_QUOTE_URL tk), Ev_sleep 1,
         Ev_get (Some c) (NSE_QUOTE_URL tk)]\<rparr>)"
proof -
  have b: "\<And>s. c \<notin> closed_clients s \<Longrightarrow>
      attempt_body ev tk c s = (Raised TransportError, emit (Ev_get (Some c) (NSE_QUOTE_URL tk)) s)"
    using down by (simp add: attempt_body_transport)
  show ?thesis using op by (simp add: b emit_def)
qed

text \<open>
  Claim C6. If every upstream request fails in transport, \<open>fetch_nse_price\<close> returns \<open>None\<close>
  without raising; after obtaining the session client it makes exactly three quote
  requests, sleeping 0.5 seconds after the first and 1 second after the second, and
  does nothing else.
\<close>

theorem fetch_nse_price_transport_errors:
  assumes "\<forall>tr. http_get ev tr = Transport_error" and "state_ok st"
  shows "fetch_nse_price ev symbol st =
     (Inr None,
      (snd (get_client ev st))\<lparr>trace := trace (snd (get_client ev st)) @
        [Ev_get (Some (fst (get_client ev st))) (NSE_QUOTE_URL (py_remove ''.BO'' (py_remove ''.NS'' (py_upper symbol)))),
         Ev_sleep 0.5,
         Ev_get (Some (fst (get_client ev st))) (NSE_QUOTE_URL (py_remove ''.BO'' (py_remove ''.NS'' (py_upper symbol)))),
         Ev_sleep 1,
         Ev_get (Some (fst (get_client ev st))) (NSE_QUOTE_URL (py_remove ''.BO'' (py_remove ''.NS'' (py_upper symbol))))]\<rparr>)"
proof -
  obtain c st1 where g: "get_client ev st = (c, st1)" by (cases "get_client ev st")
  with get_client_session(2)[OF assms(2), of ev] have "c \<notin> closed_clients st1" by simp
  from fetch_attempts_all_transport[OF assms(1) this] g show ?thesis
    by (simp add: fetch_nse_price_def upt_0_3 Let_def)
qed

lemma state_ok_initial: "state_ok initial_state"
  by (simp add: state_ok_def initial_state_def)

lemma get_client_initial:
  "get_client ev initial_state =
     (0, initial_state\<lparr>nse_client := Some 0, fresh := Suc 0,
           trace := [Ev_create 0, Ev_get (Some 0) NSE_BASE_URL]\<rparr>)"
  using new_client_eq[of initial_state ev]
  by (simp add: get_client_def initial_state_def)

lemma clean_TCS: "py_remove ''.BO'' (py_remove ''.NS'' (py_upper ''tcs.ns'')) = ''TCS''"
  by code_simp

theorem fetch_nse_price_transport_errors_witness:
  "(\<forall>tr. http_get upstream_down tr = Transport_error) \<and> state_ok initial_state \<and>
   fetch_nse_price upstream_down ''tcs.ns'' initial_state =
     (Inr None,
      initial_state\<lparr>nse_client := Some 0, fresh := Suc 0,
        trace := [Ev_create 0, Ev_get (Some 0) NSE_BASE_URL,
                  Ev_get (Some 0) (NSE_QUOTE_URL ''TCS''), Ev_sleep 0.5,
                  Ev_get (Some 0) (NSE_QUOTE_URL ''TCS''), Ev_sleep 1,
                  Ev_get (Some 0) (NSE_QUOTE_URL ''TCS'')]\<rparr>)"
proof -
  have d: "\<forall>tr. http_get upstream_down tr = Transport_error"
    by (simp add: upstream_down_def)
  from fetch_nse_price_transport_errors[OF d state_ok_initial, of "''tcs.ns''"] d state_ok_initial
  show ?thesis by (simp add: get_client_initial clean_TCS)
qed


text \<open>
  At the start of every attempt of the retry loop the local \<open>client\<close> is the global
  handle and is open, and the client identities in use lie below \<open>fresh\<close>. The state
  \<open>_get_client\<close> returns is so, and every pass through the loop body keeps it so, for the
  client the next attempt runs on.
\<close>

lemma client_get_fields:
  "closed_clients (snd (client_get ev c url st)) = closed_clients st"
  "nse_client (snd (client_get ev c url st)) = nse_client st"
  "fresh (snd (client_get ev c url st)) = fresh st"
  "symbol_cache (snd (client_get ev c url st)) = symbol_cache st"
  "price_cache (snd (client_get ev c url st)) = price_cache st"
  by (simp_all add: client_get_def Let_def split: http_result.splits)

lemma attempt_body_session:
  assumes ok: "state_ok st" and cur: "nse_client st = Some c" and op: "c \<notin> closed_clients st"
  shows "case attempt_body ev tk c st of
           (Returned r, st') \<Rightarrow> state_ok st' \<and> nse_client st' = Some c \<and> c \<notin> closed_clients st'
         | (Retry_with c', st') \<Rightarrow> state_ok st' \<and> nse_client st' = Some c' \<and> c' \<notin> closed_clients st'
         | (Raised e, st') \<Rightarrow> state_ok st' \<and> nse_client st' = Some c \<and> c \<notin> closed_clients st'"
proof -
  let ?st1 = "emit (Ev_get (Some c) (NSE_QUOTE_URL tk)) st"
  have ok1: "state_ok ?st1" "nse_client ?st1 = Some c" "c \<notin> closed_clients ?st1"
    using ok cur op by (simp_all add: state_ok_def)
  show ?thesis
  proof (cases "http_get ev (trace st @ [Ev_get (Some c) (NSE_QUOTE_URL tk)])")
    case Transport_error
    with ok1 op show ?thesis by (simp add: attempt_body_def client_get_open)
  next
    case (Response status body)
    show ?thesis
    proof (cases "status = 401")
      case True
      with Response have "attempt_body ev tk c st = (Retry_with (fresh st), rebuilt tk c st)"
        using attempt_body_401[OF ok cur op, of ev tk body] by (simp add: rebuilt_def)
      moreover have "state_ok (rebuilt tk c st)" "nse_client (rebuilt tk c st) = Some (fresh st)"
        "fresh st \<notin> closed_clients (rebuilt tk c st)"
        using ok cur op by (auto simp: rebuilt_def state_ok_def less_Suc_eq)
      ultimately show ?thesis by simp
    next
      case False
      with Response ok1 op show ?thesis
        by (simp add: attempt_body_def client_get_open split: sum.splits)
    qed
  qed
qed

lemma fetch_attempts_state_ok:
  assumes "state_ok st" "nse_client st = Some c" "c \<notin> closed_clients st"
  shows "state_ok (snd (fetch_attempts ev tk as c st))"
  using assms
proof (induction as arbitrary: c st)
  case Nil
  then show ?case by simp
next
  case (Cons a as)
  obtain r st' where b: "attempt_body ev tk c st = (r, st')" by (cases "attempt_body ev tk c st")
  note s = attempt_body_session[OF Cons.prems, of ev tk]
  show ?case
  proof (cases r)
    case (Returned q)
    with b s show ?thesis by simp
  next
    case (Retry_with c')
    with b s Cons.IH[of st' c'] show ?thesis by simp
  next
    case (Raised e)
    with b s have i: "state_ok st'" "nse_client st' = Some c" "c \<notin> closed_clients st'" by simp_all
    let ?st2 = "emit (Ev_sleep (0.5 * real (a + 1))) st'"
    from i have "state_ok ?st2" "nse_client ?st2 = Some c" "c \<notin> closed_clients ?st2"
      by (simp_all add: state_ok_def)
    from Cons.IH[OF this] b Raised i show ?thesis by simp
  qed
qed

lemma fetch_nse_price_state_ok: "state_ok st \<Longrightarrow> state_ok (snd (fetch_nse_price ev symbol st))"
proof -
  assume ok: "state_ok st"
  obtain c st1 where g: "get_client ev st = (c, st1)" by (cases "get_client ev st")
  with get_client_session[OF ok, of ev]
  have "state_ok st1" "nse_client st1 = Some c" "c \<notin> closed_clients st1" by simp_all
  from fetch_attempts_state_ok[OF this] g show ?thesis
    by (simp add: fetch_nse_price_def Let_def)
qed


lemma client_get_trace: "prefix (trace st) (trace (snd (client_get ev c url st)))"
  by (simp add: client_get_def Let_def split: http_result.splits)

lemma new_client_trace: "prefix (trace st) (trace (snd (new_client ev st)))"
proof -
  let ?st1 = "emit (Ev_create (fresh st)) (st\<lparr>nse_client := Some (fresh st), fresh := Suc (fresh st)\<rparr>)"
  have "prefix (trace ?st1) (trace (snd (client_get ev (fresh st) NSE_BASE_URL ?st1)))"
    by (rule client_get_trace)
  moreover have "prefix (trace st) (trace ?st1)" by simp
  ultimately have "prefix (trace st) (trace (snd (client_get ev (fresh st) NSE_BASE_URL ?st1)))"
    by (blast intro: prefix_order.trans)
  then show ?thesis
    by (cases "client_get ev (fresh st) NSE_BASE_URL ?st1")
       (auto simp: new_client_def Let_def try_except_def split: sum.splits)
qed

lemma get_client_trace: "prefix (trace st) (trace (snd (get_client ev st)))"
  by (simp add: get_client_def new_client_trace split: option.splits)

lemma attempt_body_trace: "prefix (trace st) (trace (snd (attempt_body ev tk c st)))"
proof -
  obtain r st1 where g: "client_get ev c (NSE_QUOTE_URL tk) st = (r, st1)"
    by (cases "client_get ev c (NSE_QUOTE_URL tk) st")
  with client_get_trace[of st ev c "NSE_QUOTE_URL tk"] have p1: "prefix (trace st) (trace st1)" by simp
  let ?st3 = "(case nse_client st1 of None \<Rightarrow> st1 | Some c \<Rightarrow> aclose c st1)\<lparr>nse_client := None\<rparr>"
  have "prefix (trace st1) (trace ?st3)"
    by (simp add: aclose_def split: option.splits)
  with p1 have "prefix (trace st) (trace ?st3)" by (blast intro: prefix_order.trans)
  with get_client_trace[of ?st3 ev] have p3: "prefix (trace st) (trace (snd (get_client ev ?st3)))"
    by (blast intro: prefix_order.trans)
  show ?thesis
    using p1 p3 g
    by (auto simp: attempt_body_def Let_def split: sum.splits prod.splits)
qed

lemma fetch_attempts_trace: "prefix (trace st) (trace (snd (fetch_attempts ev tk as c st)))"
proof (induction as arbitrary: c st)
  case Nil
  show ?case by simp
next
  case (Cons a as)
  obtain r st' where b: "attempt_body ev tk c st = (r, st')" by (cases "attempt_body ev tk c st")
  with attempt_body_trace[of st ev tk c] have p: "prefix (trace st) (trace st')" by simp
  show ?case
  proof (cases r)
    case (Returned q)
    with b p show ?thesis by simp
  next
    case (Retry_with c')
    from p Cons.IH[of st' c'] have "prefix (trace st) (trace (snd (fetch_attempts ev tk as c' st')))"
      by (blast intro: prefix_order.trans)
    with b Retry_with show ?thesis by simp
  next
    case (Raised e)
    have "prefix (trace st') (trace (emit (Ev_sleep (0.5 * real (a + 1))) st'))" by simp
    with p have "prefix (trace st) (trace (emit (Ev_sleep (0.5 * real (a + 1))) st'))"
      by (blast intro: prefix_order.trans)
    from this Cons.IH[of "emit (Ev_sleep (0.5 * real (a + 1))) st'" c]
    have "prefix (trace st) (trace (snd (fetch_attempts ev tk as c (emit (Ev_sleep (0.5 * real (a + 1))) st'))))"
      by (blast intro: prefix_order.trans)
    with b Raised p show ?thesis by simp
  qed
qed

lemma fetch_attempts_first_request:
  assumes "c \<notin> closed_clients st"
  shows "prefix (trace st @ [Ev_get (Some c) (NSE_QUOTE_URL tk)])
           (trace (snd (fetch_attempts ev tk (a # as) c st)))"
proof -
  let ?st1 = "emit (Ev_get (Some c) (NSE_QUOTE_URL tk)) st"
  have g: "snd (client_get ev c (NSE_QUOTE_URL tk) st) = ?st1"
    using assms by (simp add: client_get_open split: http_result.splits)
  obtain r where g': "client_get ev c (NSE_QUOTE_URL tk) st = (r, ?st1)"
    using g by (cases "client_get ev c (NSE_QUOTE_URL tk) st") simp
  let ?st3 = "(case nse_client ?st1 of None \<Rightarrow> ?st1 | Some c \<Rightarrow> aclose c ?st1)\<lparr>nse_client := None\<rparr>"
  have "prefix (trace ?st1) (trace ?st3)"
    by (simp add: aclose_def split: option.splits)
  with get_client_trace[of ?st3 ev] have p3: "prefix (trace ?st1) (trace (snd (get_client ev ?st3)))"
    by (blast intro: prefix_order.trans)
  have b: "prefix (trace ?st1) (trace (snd (attempt_body ev tk c st)))"
    using p3 g' by (auto simp: attempt_body_def Let_def split: sum.splits prod.splits)
  obtain o' st' where ab: "attempt_body ev tk c st = (o', st')" by (cases "attempt_body ev tk c st")
  with b have p: "prefix (trace ?st1) (trace st')" by simp
  have "prefix (trace ?st1) (trace (snd (fetch_attempts ev tk (a # as) c st)))"
  proof (cases o')
    case (Returned q)
    with ab p show ?thesis by simp
  next
    case (Retry_with c')
    from p fetch_attempts_trace[of st' ev tk as c']
    have "prefix (trace ?st1) (trace (snd (fetch_attempts ev tk as c' st')))"
      by (blast intro: prefix_order.trans)
    with ab Retry_with show ?thesis by simp
  next
    case (Raised e)
    have "prefix (trace st') (trace (emit (Ev_sleep (0.5 * real (a + 1))) st'))" by simp
    with p have "prefix (trace ?st1) (trace (emit (Ev_sleep (0.5 * real (a + 1))) st'))"
      by (blast intro: prefix_order.trans)
    from this fetch_attempts_trace[of "emit (Ev_sleep (0.5 * real (a + 1))) st'" ev tk as c]
    have "prefix (trace ?st1) (trace (snd (fetch_attempts ev tk as c (emit (Ev_sleep (0.5 * real (a + 1))) st'))))"
      by (blast intro: prefix_order.trans)
    with ab Raised p show ?thesis by simp
  qed
  then show ?thesis by simp
qed

text \<open>
  Claim C8. Let the quote request of an attempt, sent on the current session client \<open>c\<close>,
  be answered with status 401. Then the attempt closes \<open>c\<close>, clears the handle, creates
  exactly one new client and warms it up with one request to the home page; the new
  client differs from \<open>c\<close>, is open and is the global handle. When the loop has an attempt
  left, that attempt follows directly and sends its quote request on the new client.
\<close>

theorem session_rebuild_on_401:
  assumes ok: "state_ok st" and cur: "nse_client st = Some c" and op: "c \<notin> closed_clients st"
    and r: "http_get ev (trace st @ [Ev_get (Some c) (NSE_QUOTE_URL tk)]) = Response 401 body"
  shows "\<exists>st'. attempt_body ev tk c st = (Retry_with (fresh st), st')
           \<and> fresh st \<noteq> c
           \<and> nse_client st' = Some (fresh st)
           \<and> closed_clients st' = insert c (closed_clients st)
           \<and> fresh st \<notin> closed_clients st'
           \<and> trace st' = trace st @ [Ev_get (Some c) (NSE_QUOTE_URL tk), Ev_close c,
                                     Ev_create (fresh st), Ev_get (Some (fresh st)) NSE_BASE_URL]
           \<and> fetch_attempts ev tk (a # a' # rest) c st = fetch_attempts ev tk (a' # rest) (fresh st) st'
           \<and> prefix (trace st' @ [Ev_get (Some (fresh st)) (NSE_QUOTE_URL tk)])
                    (trace (snd (fetch_attempts ev tk (a # a' # rest) c st)))"
proof -
  let ?st' = "st\<lparr>nse_client := Some (fresh st), closed_clients := insert c (closed_clients st),
               fresh := Suc (fresh st),
               trace := trace st @ [Ev_get (Some c) (NSE_QUOTE_URL tk), Ev_close c,
                                    Ev_create (fresh st), Ev_get (Some (fresh st)) NSE_BASE_URL]\<rparr>"
  have b: "attempt_body ev tk c st = (Retry_with (fresh st), ?st')"
    by (rule attempt_body_401[OF ok cur op r])
  from ok cur have ne: "fresh st \<noteq> c" by (auto simp: state_ok_def)
  have nc: "fresh st \<notin> closed_clients ?st'"
    using state_ok_fresh[OF ok] ne by simp
  have step: "fetch_attempts ev tk (a # a' # rest) c st = fetch_attempts ev tk (a' # rest) (fresh st) ?st'"
    by (simp add: b)
  have "prefix (trace ?st' @ [Ev_get (Some (fresh st)) (NSE_QUOTE_URL tk)])
          (trace (snd (fetch_attempts ev tk (a' # rest) (fresh st) ?st')))"
    by (rule fetch_attempts_first_request[OF nc])
  with step have "prefix (trace ?st' @ [Ev_get (Some (fresh st)) (NSE_QUOTE_URL tk)])
          (trace (snd (fetch_attempts ev tk (a # a' # rest) c st)))" by simp
  with b ne nc step show ?thesis by simp
qed


lemma state_ok_session: "state_ok session_state"
  by (simp add: state_ok_def session_state_def initial_state_def)

theorem session_rebuild_on_401_witness:
  "state_ok session_state \<and> nse_client session_state = Some 0 \<and> 0 \<notin> closed_clients session_state \<and>
   http_get upstream_401 (trace session_state @ [Ev_get (Some 0) (NSE_QUOTE_URL ''TCS'')]) = Response 401 None \<and>
   (\<exists>st'. attempt_body upstream_401 ''TCS'' 0 session_state = (Retry_with 1, st')
      \<and> nse_client st' = Some 1 \<and> closed_clients st' = {0}
      \<and> trace st' = [Ev_create 0, Ev_get (Some 0) NSE_BASE_URL,
                      Ev_get (Some 0) (NSE_QUOTE_URL ''TCS''), Ev_close 0,
                      Ev_create 1, Ev_get (Some 1) NSE_BASE_URL]
      \<and> prefix (trace st' @ [Ev_get (Some 1) (NSE_QUOTE_URL ''TCS'')])
           (trace (snd (fetch_attempts upstream_401 ''TCS'' [0, 1, 2] 0 session_state))))"
proof -
  have h: "nse_client session_state = Some 0" "0 \<notin> closed_clients session_state"
    "http_get upstream_401 (trace session_state @ [Ev_get (Some 0) (NSE_QUOTE_URL ''TCS'')]) = Response 401 None"
    "fresh session_state = 1"
    by (simp_all add: session_state_def initial_state_def upstream_401_def)
  from session_rebuild_on_401[OF state_ok_session h(1) h(2) h(3), of 0 1 "[2]"]
  obtain st' where "attempt_body upstream_401 ''TCS'' 0 session_state = (Retry_with (fresh session_state), st')"
      "nse_client st' = Some (fresh session_state)"
      "closed_clients st' = insert 0 (closed_clients session_state)"
      "trace st' = trace session_state @ [Ev_get (Some 0) (NSE_QUOTE_URL ''TCS''), Ev_close 0,
                                     Ev_create (fresh session_state), Ev_get (Some (fresh session_state)) NSE_BASE_URL]"
      "prefix (trace st' @ [Ev_get (Some (fresh session_state)) (NSE_QUOTE_URL ''TCS'')])
                    (trace (snd (fetch_attempts upstream_401 ''TCS'' [0, 1, 2] 0 session_state)))"
    by blast
  then have "attempt_body upstream_401 ''TCS'' 0 session_state = (Retry_with 1, st')
      \<and> nse_client st' = Some 1 \<and> closed_clients st' = {0}
      \<and> trace st' = [Ev_create 0, Ev_get (Some 0) NSE_BASE_URL,
                      Ev_get (Some 0) (NSE_QUOTE_URL ''TCS''), Ev_close 0,
                      Ev_create 1, Ev_get (Some 1) NSE_BASE_URL]
      \<and> prefix (trace st' @ [Ev_get (Some 1) (NSE_QUOTE_URL ''TCS'')])
           (trace (snd (fetch_attempts upstream_401 ''TCS'' [0, 1, 2] 0 session_state)))"
    using h by (simp add: session_state_def initial_state_def)
  then show ?thesis using state_ok_session h by blast
qed

lemma rebuilt_ok:
  assumes "state_ok st" "nse_client st = Some c" "c \<notin> closed_clients st"
  shows "state_ok (rebuilt tk c st)" "nse_client (rebuilt tk c st) = Some (fresh st)"
    "fresh st \<notin> closed_clients (rebuilt tk c st)" "fresh (rebuilt tk c st) = Suc (fresh st)"
  using assms by (auto simp: rebuilt_def state_ok_def less_Suc_eq)

lemma attempt_body_all_401:
  assumes ok: "state_ok st" and cur: "nse_client st = Some c" and op: "c \<notin> closed_clients st"
    and all401: "\<forall>tr c' s. \<exists>body. http_get ev (tr @ [Ev_get c' (NSE_QUOTE_URL s)]) = Response 401 body"
  shows "attempt_body ev tk c st = (Retry_with (fresh st), rebuilt tk c st)"
proof -
  from all401 obtain body where
    "http_get ev (trace st @ [Ev_get (Some c) (NSE_QUOTE_URL tk)]) = Response 401 body" by blast
  from attempt_body_401[OF ok cur op this] show ?thesis by (simp add: rebuilt_def)
qed

lemma fetch_attempts_all_401:
  assumes ok: "state_ok st" and cur: "nse_client st = Some c" and op: "c \<notin> closed_clients st"
    and all401: "\<forall>tr c' s. \<exists>body. http_get ev (tr @ [Ev_get c' (NSE_QUOTE_URL s)]) = Response 401 body"
  shows "fetch_attempts ev tk [0, 1, 2] c st =
     (Inr None, rebuilt tk (Suc (fresh st)) (rebuilt tk (fresh st) (rebuilt tk c st)))"
proof -
  let ?s1 = "rebuilt tk c st"
  let ?s2 = "rebuilt tk (fresh st) ?s1"
  note r1 = rebuilt_ok[OF ok cur op, of tk]
  have b1: "attempt_body ev tk c st = (Retry_with (fresh st), ?s1)"
    by (rule attempt_body_all_401[OF ok cur op all401])
  have b2: "attempt_body ev tk (fresh st) ?s1 = (Retry_with (fresh ?s1), ?s2)"
    by (rule attempt_body_all_401[OF r1(1) r1(2) r1(3) all401])
  note r2 = rebuilt_ok[OF r1(1) r1(2) r1(3), of tk]
  have b3: "attempt_body ev tk (Suc (fresh st)) ?s2 = (Retry_with (fresh ?s2), rebuilt tk (Suc (fresh st)) ?s2)"
    using attempt_body_all_401[OF r2(1) r2(2) r2(3) all401, of tk] by (simp add: r1(4))
  from b2 have b2': "attempt_body ev tk (fresh st) ?s1 = (Retry_with (Suc (fresh st)), ?s2)"
    by (simp add: r1(4))
  show ?thesis by (simp add: b1 b2' b3)
qed

text \<open>
  Claim C10. Let every quote request be answered with status 401. Then an attempt that
  starts on the current session client goes on to the remaining attempts with the
  rebuilt session, and nothing is slept in between: the 401 has used up that attempt.
  \<open>fetch_nse_price\<close> as a whole returns \<open>None\<close> after exactly three quote requests, each
  followed by a session rebuild, with no sleep at all.
\<close>

theorem unauthorized_consumes_attempt:
  assumes ok: "state_ok st"
    and all401: "\<forall>tr c' s. \<exists>body. http_get ev (tr @ [Ev_get c' (NSE_QUOTE_URL s)]) = Response 401 body"
  shows "(nse_client st = Some c \<and> c \<notin> closed_clients st \<longrightarrow>
            (\<exists>st'. fetch_attempts ev tk (a # rest) c st = fetch_attempts ev tk rest (fresh st) st'
               \<and> trace st' = trace st @ [Ev_get (Some c) (NSE_QUOTE_URL tk), Ev_close c,
                                         Ev_create (fresh st), Ev_get (Some (fresh st)) NSE_BASE_URL]))
       \<and> fst (fetch_nse_price ev symbol st) = Inr None
       \<and> (case get_client ev st of (c0, st1) \<Rightarrow>
            trace (snd (fetch_nse_price ev symbol st)) = trace st1 @
              [Ev_get (Some c0) (NSE_QUOTE_URL (py_remove ''.BO'' (py_remove ''.NS'' (py_upper symbol)))),
               Ev_close c0, Ev_create (fresh st1), Ev_get (Some (fresh st1)) NSE_BASE_URL,
               Ev_get (Some (fresh st1)) (NSE_QUOTE_URL (py_remove ''.BO'' (py_remove ''.NS'' (py_upper symbol)))),
               Ev_close (fresh st1), Ev_create (fresh st1 + 1), Ev_get (Some (fresh st1 + 1)) NSE_BASE_URL,
               Ev_get (Some (fresh st1 + 1)) (NSE_QUOTE_URL (py_remove ''.BO'' (py_remove ''.NS'' (py_upper symbol)))),
               Ev_close (fresh st1 + 1), Ev_create (fresh st1 + 2), Ev_get (Some (fresh st1 + 2)) NSE_BASE_URL])"
proof (intro conjI impI)
  assume h: "nse_client st = Some c \<and> c \<notin> closed_clients st"
  then have "attempt_body ev tk c st = (Retry_with (fresh st), rebuilt tk c st)"
    using attempt_body_all_401[OF ok _ _ all401] by blast
  then have "fetch_attempts ev tk (a # rest) c st = fetch_attempts ev tk rest (fresh st) (rebuilt tk c st)"
    by simp
  moreover have "trace (rebuilt tk c st) = trace st @ [Ev_get (Some c) (NSE_QUOTE_URL tk), Ev_close c,
                                         Ev_create (fresh st), Ev_get (Some (fresh st)) NSE_BASE_URL]"
    by (simp add: rebuilt_def)
  ultimately show "\<exists>st'. fetch_attempts ev tk (a # rest) c st = fetch_attempts ev tk rest (fresh st) st'
               \<and> trace st' = trace st @ [Ev_get (Some c) (NSE_QUOTE_URL tk), Ev_close c,
                                         Ev_create (fresh st), Ev_get (Some (fresh st)) NSE_BASE_URL]"
    by blast
next
  obtain c0 st1 where g: "get_client ev st = (c0, st1)" by (cases "get_client ev st")
  with get_client_session[OF ok, of ev]
  have s: "state_ok st1" "nse_client st1 = Some c0" "c0 \<notin> closed_clients st1" by simp_all
  let ?tk = "py_remove ''.BO'' (py_remove ''.NS'' (py_upper symbol))"
  have f: "fetch_nse_price ev symbol st =
      (Inr None, rebuilt ?tk (Suc (fresh st1)) (rebuilt ?tk (fresh st1) (rebuilt ?tk c0 st1)))"
    using fetch_attempts_all_401[OF s all401, of ?tk] g
    by (simp add: fetch_nse_price_def upt_0_3 Let_def)
  show "fst (fetch_nse_price ev symbol st) = Inr None" by (simp add: f)
  show "case get_client ev st of (c0, st1) \<Rightarrow>
            trace (snd (fetch_nse_price ev symbol st)) = trace st1 @
              [Ev_get (Some c0) (NSE_QUOTE_URL (py_remove ''.BO'' (py_remove ''.NS'' (py_upper symbol)))),
               Ev_close c0, Ev_create (fresh st1), Ev_get (Some (fresh st1)) NSE_BASE_URL,
               Ev_get (Some (fresh st1)) (NSE_QUOTE_URL (py_remove ''.BO'' (py_remove ''.NS'' (py_upper symbol)))),
               Ev_close (fresh st1), Ev_create (fresh st1 + 1), Ev_get (Some (fresh st1 + 1)) NSE_BASE_URL,
               Ev_get (Some (fresh st1 + 1)) (NSE_QUOTE_URL (py_remove ''.BO'' (py_remove ''.NS'' (py_upper symbol)))),
               Ev_close (fresh st1 + 1), Ev_create (fresh st1 + 2), Ev_get (Some (fresh st1 + 2)) NSE_BASE_URL]"
    by (simp add: g f rebuilt_def)
qed

theorem unauthorized_consumes_attempt_witness:
  "state_ok initial_state \<and>
   (\<forall>tr c' s. \<exists>body. http_get upstream_401 (tr @ [Ev_get c' (NSE_QUOTE_URL s)]) = Response 401 body) \<and>
   fst (fetch_nse_price upstream_401 ''tcs.ns'' initial_state) = Inr None \<and>
   trace (snd (fetch_nse_price upstream_401 ''tcs.ns'' initial_state)) =
     [Ev_create 0, Ev_get (Some 0) NSE_BASE_URL,
      Ev_get (Some 0) (NSE_QUOTE_URL ''TCS''), Ev_close 0, Ev_create 1, Ev_get (Some 1) NSE_BASE_URL,
      Ev_get (Some 1) (NSE_QUOTE_URL ''TCS''), Ev_close 1, Ev_create 2, Ev_get (Some 2) NSE_BASE_URL,
      Ev_get (Some 2) (NSE_QUOTE_URL ''TCS''), Ev_close 2, Ev_create 3, Ev_get (Some 3) NSE_BASE_URL]"
proof -
  have a: "\<forall>tr c' s. \<exists>body. http_get upstream_401 (tr @ [Ev_get c' (NSE_QUOTE_URL s)]) = Response 401 body"
    by (simp add: upstream_401_def)
  from unauthorized_consumes_attempt[OF state_ok_initial a, of 0 "''TCS''" 0 "[1, 2]" "''tcs.ns''"]
    a state_ok_initial
  show ?thesis by (simp add: get_client_initial clean_TCS)
qed


section \<open>Properties of the Yahoo client and the endpoints\<close>









lemma yahoo_search_result:
  "fst (yahoo_search_nse_symbol ev name st) =
     (case http_get ev (trace st @ [Ev_get None (YAHOO_SEARCH_URL name)]) of
        Transport_error \<Rightarrow> Inr None
      | Response status body \<Rightarrow>
          if status \<noteq> 200 then Inr None
          else (case ebind (resp_json body) (\<lambda>data. ebind (py_get data ''quotes'' (JArr []))
                        (\<lambda>quotes. ebind (py_iter quotes) yahoo_scan)) of
                  Inl e \<Rightarrow> Inr None | Inr r \<Rightarrow> Inr r))"
  by (simp add: yahoo_search_nse_symbol_def yahoo_search_body_def try_except_def Let_def
           split: http_result.splits sum.splits)

lemma fetch_ltp_sync_result:
  "fst (fetch_ltp_sync ev tk st) =
     (case yf_last_price ev (trace st @ [Ev_fast_info tk]) of
        Ticker_raises e \<Rightarrow> Inr None
      | Price p \<Rightarrow> Inr (Some p)
      | Price_none \<Rightarrow>
          (case yf_history ev (trace st @ [Ev_fast_info tk, Ev_history tk]) of
             Hist_raises e \<Rightarrow> Inr None | Hist_empty \<Rightarrow> Inr None | Hist_close x \<Rightarrow> Inr (Some x))
      | Price_raises e \<Rightarrow>
          if e = AttributeError
          then (case yf_history ev (trace st @ [Ev_fast_info tk, Ev_history tk]) of
             Hist_raises e \<Rightarrow> Inr None | Hist_empty \<Rightarrow> Inr None | Hist_close x \<Rightarrow> Inr (Some x))
          else Inr None)"
  by (simp add: fetch_ltp_sync_def fetch_ltp_body_def try_except_def Let_def
           split: yf_price.splits yf_hist.splits)





lemma search_TCS_upper: "py_upper (py_strip ''tcs'') = ''TCS''"
  by code_simp




lemma fetch_ltp_sync_effect:
  "(trace (snd (fetch_ltp_sync ev tk st)) = trace st @ [Ev_fast_info tk] \<or>
    trace (snd (fetch_ltp_sync ev tk st)) = trace st @ [Ev_fast_info tk, Ev_history tk]) \<and>
   price_cache (snd (fetch_ltp_sync ev tk st)) = price_cache st \<and>
   symbol_cache (snd (fetch_ltp_sync ev tk st)) = symbol_cache st"
  by (simp add: fetch_ltp_sync_def fetch_ltp_body_def try_except_def Let_def
           split: yf_price.splits yf_hist.splits)

lemma get_price_state: "snd (get_price ev symbol st) = snd (fetch_ltp_sync ev (py_upper (py_strip symbol)) st)"
  by (cases "fetch_ltp_sync ev (py_upper (py_strip symbol)) st")
     (simp add: get_price_def fetch_ltp_def Let_def split: sum.splits option.splits)

lemma get_price_result:
  "fst (get_price ev symbol st) =
     (case fst (fetch_ltp_sync ev (py_upper (py_strip symbol)) st) of
        Inl e \<Rightarrow> Inl e
      | Inr None \<Rightarrow> Inl (HTTPException 404)
      | Inr (Some p) \<Rightarrow> if p \<le> 0 then Inl (HTTPException 404)
                       else Inr (py_upper (py_strip symbol), p))"
  by (cases "fetch_ltp_sync ev (py_upper (py_strip symbol)) st")
     (simp add: get_price_def fetch_ltp_def Let_def split: sum.splits option.splits)

lemma fetch_ltp_sync_result_caches:
  "fst (fetch_ltp_sync ev tk (st\<lparr>symbol_cache := sc, price_cache := pc\<rparr>)) = fst (fetch_ltp_sync ev tk st)"
  by (simp add: fetch_ltp_sync_result split: yf_price.splits)

lemma get_price_result_caches:
  "fst (get_price ev symbol (st\<lparr>symbol_cache := sc, price_cache := pc\<rparr>)) = fst (get_price ev symbol st)"
  by (simp only: get_price_result fetch_ltp_sync_result_caches)

lemma get_price_from_price:
  assumes "yf_last_price ev (trace st @ [Ev_fast_info (py_upper (py_strip symbol))]) = Price p"
  shows "get_price ev symbol st =
     (if p \<le> 0 then Inl (HTTPException 404) else Inr (py_upper (py_strip symbol), p),
      emit (Ev_fast_info (py_upper (py_strip symbol))) st)"
  using assms
  by (simp add: get_price_def fetch_ltp_def fetch_ltp_sync_def fetch_ltp_body_def
        try_except_def Let_def)

lemma get_price_from_history:
  assumes "yf_last_price ev (trace st @ [Ev_fast_info (py_upper (py_strip symbol))]) = Price_none \<or>
           yf_last_price ev (trace st @ [Ev_fast_info (py_upper (py_strip symbol))])
             = Price_raises AttributeError"
    and "yf_history ev (trace st @ [Ev_fast_info (py_upper (py_strip symbol)),
                                    Ev_history (py_upper (py_strip symbol))]) = Hist_close x"
  shows "get_price ev symbol st =
     (if x \<le> 0 then Inl (HTTPException 404) else Inr (py_upper (py_strip symbol), x),
      emit (Ev_history (py_upper (py_strip symbol)))
        (emit (Ev_fast_info (py_upper (py_strip symbol))) st))"
  using assms
  by (auto simp: get_price_def fetch_ltp_def fetch_ltp_sync_def fetch_ltp_body_def
        try_except_def Let_def)

text \<open>
  Claim C2. Every call of \<open>get_price\<close>, in every state, calls the upstream price source for
  the normalised ticker, leaves both caches as they were, and gives a result that does
  not depend on what the caches hold. The answer is the one the upstream gives to this
  very call: a price \<open>p\<close> read from \<open>fast_info\<close> is returned as it is (status 404 when
  \<open>p \<le> 0\<close>), and so is the last close of the history when \<open>fast_info\<close> has no price. Two
  calls in a row for the same symbol both go to the upstream, and the second returns what
  the upstream answers to the second call.
\<close>

theorem get_price_always_fetches:
  "(\<exists>more. trace (snd (get_price ev symbol st)) =
       trace st @ Ev_fast_info (py_upper (py_strip symbol)) # more) \<and>
   price_cache (snd (get_price ev symbol st)) = price_cache st \<and>
   symbol_cache (snd (get_price ev symbol st)) = symbol_cache st \<and>
   fst (get_price ev symbol (st\<lparr>symbol_cache := sc, price_cache := pc\<rparr>)) = fst (get_price ev symbol st) \<and>
   (\<exists>more more'. trace (snd (get_price ev symbol (snd (get_price ev symbol st)))) =
       trace st @ Ev_fast_info (py_upper (py_strip symbol)) # more
                @ Ev_fast_info (py_upper (py_strip symbol)) # more') \<and>
   (yf_last_price ev (trace st @ [Ev_fast_info (py_upper (py_strip symbol))]) = Price p \<longrightarrow>
      get_price ev symbol st =
        (if p \<le> 0 then Inl (HTTPException 404) else Inr (py_upper (py_strip symbol), p),
         emit (Ev_fast_info (py_upper (py_strip symbol))) st)) \<and>
   ((yf_last_price ev (trace st @ [Ev_fast_info (py_upper (py_strip symbol))]) = Price_none \<or>
     yf_last_price ev (trace st @ [Ev_fast_info (py_upper (py_strip symbol))])
       = Price_raises AttributeError) \<and>
    yf_history ev (trace st @ [Ev_fast_info (py_upper (py_strip symbol)),
                               Ev_history (py_upper (py_strip symbol))]) = Hist_close x \<longrightarrow>
      get_price ev symbol st =
        (if x \<le> 0 then Inl (HTTPException 404) else Inr (py_upper (py_strip symbol), x),
         emit (Ev_history (py_upper (py_strip symbol)))
           (emit (Ev_fast_info (py_upper (py_strip symbol))) st))) \<and>
   (yf_last_price ev (trace (snd (get_price ev symbol st))
        @ [Ev_fast_info (py_upper (py_strip symbol))]) = Price q \<longrightarrow>
      get_price ev symbol (snd (get_price ev symbol st)) =
        (if q \<le> 0 then Inl (HTTPException 404) else Inr (py_upper (py_strip symbol), q),
         emit (Ev_fast_info (py_upper (py_strip symbol))) (snd (get_price ev symbol st))))"
proof -
  let ?tk = "py_upper (py_strip symbol)"
  let ?s1 = "snd (get_price ev symbol st)"
  have e: "\<exists>more. trace (snd (get_price ev symbol s)) = trace s @ Ev_fast_info ?tk # more" for s
    using fetch_ltp_sync_effect[of ev ?tk s] by (auto simp: get_price_state)
  from e[of st] obtain m1 where m1: "trace ?s1 = trace st @ Ev_fast_info ?tk # m1" by blast
  from e[of ?s1] obtain m2 where m2: "trace (snd (get_price ev symbol ?s1)) = trace ?s1 @ Ev_fast_info ?tk # m2"
    by blast
  have two: "\<exists>more more'. trace (snd (get_price ev symbol ?s1)) =
       trace st @ Ev_fast_info ?tk # more @ Ev_fast_info ?tk # more'"
    using m1 m2 by auto
  have c: "price_cache ?s1 = price_cache st" "symbol_cache ?s1 = symbol_cache st"
    using fetch_ltp_sync_effect[of ev ?tk st] by (simp_all add: get_price_state)
  show ?thesis
    using e[of st] two c get_price_result_caches[where ev = ev and symbol = symbol and st = st and sc = sc and pc = pc]
      get_price_from_price[of ev st symbol p] get_price_from_history[of ev st symbol x]
      get_price_from_price[of ev ?s1 symbol q]
    by blast
qed

lemma normalize_ticker: "py_upper (py_strip '' tcs.ns '') = ''TCS.NS''"
  by code_simp

theorem get_price_always_fetches_witness:
  "get_price upstream_ticking '' tcs.ns '' initial_state =
     (Inr (''TCS.NS'', 3457), initial_state\<lparr>trace := [Ev_fast_info ''TCS.NS'']\<rparr>) \<and>
   get_price upstream_ticking '' tcs.ns '' (initial_state\<lparr>trace := [Ev_fast_info ''TCS.NS'']\<rparr>) =
     (Inr (''TCS.NS'', 3458),
      initial_state\<lparr>trace := [Ev_fast_info ''TCS.NS'', Ev_fast_info ''TCS.NS'']\<rparr>) \<and>
   get_price upstream_unavailable '' tcs.ns '' initial_state =
     (Inr (''TCS.NS'', 3460),
      initial_state\<lparr>trace := [Ev_fast_info ''TCS.NS'', Ev_history ''TCS.NS'']\<rparr>)"
proof -
  have a: "get_price upstream_ticking '' tcs.ns '' initial_state =
     (Inr (''TCS.NS'', 3457), initial_state\<lparr>trace := [Ev_fast_info ''TCS.NS'']\<rparr>)"
    using get_price_always_fetches[where ev = upstream_ticking and symbol = "'' tcs.ns ''" and st = initial_state and p = 3457, THEN conjunct2, THEN conjunct2, THEN conjunct2, THEN conjunct2, THEN conjunct2, THEN conjunct1]
    by (simp add: normalize_ticker upstream_ticking_def initial_state_def emit_def)
  have b: "get_price upstream_ticking '' tcs.ns '' (initial_state\<lparr>trace := [Ev_fast_info ''TCS.NS'']\<rparr>) =
     (Inr (''TCS.NS'', 3458),
      initial_state\<lparr>trace := [Ev_fast_info ''TCS.NS'', Ev_fast_info ''TCS.NS'']\<rparr>)"
    using get_price_always_fetches[where ev = upstream_ticking and symbol = "'' tcs.ns ''" and st = initial_state and q = 3458, THEN conjunct2, THEN conjunct2, THEN conjunct2, THEN conjunct2, THEN conjunct2, THEN conjunct2, THEN conjunct2]
    by (simp add: a normalize_ticker) (simp add: upstream_ticking_def initial_state_def emit_def)
  have c: "get_price upstream_unavailable '' tcs.ns '' initial_state =
     (Inr (''TCS.NS'', 3460),
      initial_state\<lparr>trace := [Ev_fast_info ''TCS.NS'', Ev_history ''TCS.NS'']\<rparr>)"
    using get_price_always_fetches[where ev = upstream_unavailable and symbol = "'' tcs.ns ''" and st = initial_state and x = 3460, THEN conjunct2, THEN conjunct2, THEN conjunct2, THEN conjunct2, THEN conjunct2, THEN conjunct2, THEN conjunct1]
    by (simp add: normalize_ticker upstream_unavailable_def initial_state_def emit_def)
  from a b c show ?thesis by blast
qed


lemma yahoo_scan_accepts:
  "yahoo_scan items = Inr (Some s) \<Longrightarrow>
   \<exists>kvs. JObj kvs \<in> set items \<and> map_of kvs ''exchange'' = Some (JStr ''NSI'') \<and>
         map_of kvs ''quoteType'' = Some (JStr ''EQUITY'') \<and>
         map_of kvs ''symbol'' = Some (JStr s) \<and> suffix ''.NS'' s"
proof (induction items)
  case Nil
  then show ?case by simp
next
  case (Cons item items)
  show ?case
  proof (cases "yahoo_scan items = Inr (Some s)")
    case True
    with Cons.IH show ?thesis by auto
  next
    case False
    with Cons.prems obtain kvs where i: "item = JObj kvs"
      by (cases item) (simp_all add: ebind_def)
    from Cons.prems False i have
      "map_of kvs ''exchange'' = Some (JStr ''NSI'') \<and>
       map_of kvs ''quoteType'' = Some (JStr ''EQUITY'') \<and>
       map_of kvs ''symbol'' = Some (JStr s) \<and> suffix ''.NS'' s"
      by (auto simp: ebind_def py_endswith_def split: option.splits json.splits if_splits)
    with i show ?thesis by auto
  qed
qed

lemma yahoo_scan_sole_rejected:
  assumes "\<not> (map_of kvs ''exchange'' = Some (JStr ''NSI'') \<and>
              map_of kvs ''quoteType'' = Some (JStr ''EQUITY'') \<and>
              (\<exists>s. map_of kvs ''symbol'' = Some (JStr s) \<and> suffix ''.NS'' s))"
  shows "yahoo_scan [JObj kvs] \<noteq> Inr (Some s)"
proof
  assume "yahoo_scan [JObj kvs] = Inr (Some s)"
  from yahoo_scan_accepts[OF this] assms show False by auto
qed

lemma upper_char_nonempty: "upper_char c \<noteq> []"
  by (simp add: upper_char_def Let_def)

lemma py_upper_nonempty: "s \<noteq> [] \<Longrightarrow> py_upper s \<noteq> []"
  by (cases s) (simp_all add: py_upper_def upper_char_nonempty)

lemma nse_search_first_candidate:
  assumes ok: "state_ok st"
    and r: "http_get ev (trace (snd (get_client ev st)) @
              [Ev_get (Some (fst (get_client ev st))) (NSE_SEARCH_URL (py_upper (py_strip query)))])
            = Response 200 (Some (JObj payload))"
    and l: "map_of payload ''symbols'' = Some (JArr (JObj first # others))"
    and f: "map_of first ''symbol'' = Some (JStr raw)" and ne: "raw \<noteq> []"
  shows "fst (nse_search_nse_symbol ev query st) = Inr (Some (py_upper raw))"
proof -
  obtain c st1 where g: "get_client ev st = (c, st1)" by (cases "get_client ev st")
  with get_client_session(2)[OF ok, of ev] have op: "c \<notin> closed_clients st1" by simp
  from r g have r': "http_get ev (trace st1 @ [Ev_get (Some c) (NSE_SEARCH_URL (py_upper (py_strip query)))])
            = Response 200 (Some (JObj payload))" by simp
  from py_upper_nonempty[OF ne] l f r' op
  have "fst (nse_search_body ev c query st1) = Inr (Some (py_upper raw))"
    by (simp add: nse_search_body_def client_get_open resp_json_def ebind_def Let_def)
  with g show ?thesis
    by (cases "nse_search_body ev c query st1") (simp add: nse_search_nse_symbol_def try_except_def)
qed

text \<open>
  Claim C7, in the form the code satisfies. The Yahoo search returns a symbol only if the
  response has status 200 and lists a candidate whose exchange is \<open>NSI\<close>, whose quote
  type is \<open>EQUITY\<close> and whose symbol is that string and ends with \<open>.NS\<close>. A response whose
  only candidate fails one of the three tests gives \<open>None\<close>. The search of
  \<open>nse_client.py\<close> applies no such filter: when the NSE autocomplete answers 200 with a
  list whose first candidate is a record with a non-empty string as its symbol, that
  string is returned upper-cased, whatever else the candidate holds.
\<close>

theorem yahoo_search_exchange_filter:
  "(fst (yahoo_search_nse_symbol ev name st) = Inr (Some s) \<longrightarrow>
      (\<exists>data quotes items kvs.
         http_get ev (trace st @ [Ev_get None (YAHOO_SEARCH_URL name)]) = Response 200 (Some data) \<and>
         py_get data ''quotes'' (JArr []) = Inr quotes \<and> py_iter quotes = Inr items \<and>
         JObj kvs \<in> set items \<and>
         map_of kvs ''exchange'' = Some (JStr ''NSI'') \<and>
         map_of kvs ''quoteType'' = Some (JStr ''EQUITY'') \<and>
         map_of kvs ''symbol'' = Some (JStr s) \<and> suffix ''.NS'' s)) \<and>
   (http_get ev (trace st @ [Ev_get None (YAHOO_SEARCH_URL name)])
        = Response 200 (Some (JObj [(''quotes'', JArr [JObj cand])])) \<and>
    \<not> (map_of cand ''exchange'' = Some (JStr ''NSI'') \<and>
       map_of cand ''quoteType'' = Some (JStr ''EQUITY'') \<and>
       (\<exists>s'. map_of cand ''symbol'' = Some (JStr s') \<and> suffix ''.NS'' s')) \<longrightarrow>
      fst (yahoo_search_nse_symbol ev name st) = Inr None) \<and>
   (state_ok st \<and>
    http_get ev (trace (snd (get_client ev st)) @
       [Ev_get (Some (fst (get_client ev st))) (NSE_SEARCH_URL (py_upper (py_strip name)))])
      = Response 200 (Some (JObj payload)) \<and>
    map_of payload ''symbols'' = Some (JArr (JObj first # others)) \<and>
    map_of first ''symbol'' = Some (JStr raw) \<and> raw \<noteq> [] \<longrightarrow>
      fst (nse_search_nse_symbol ev name st) = Inr (Some (py_upper raw)))"
proof (intro conjI impI)
  assume a: "fst (yahoo_search_nse_symbol ev name st) = Inr (Some s)"
  then obtain data where r: "http_get ev (trace st @ [Ev_get None (YAHOO_SEARCH_URL name)]) = Response 200 (Some data)"
    and e: "ebind (py_get data ''quotes'' (JArr [])) (\<lambda>quotes. ebind (py_iter quotes) yahoo_scan) = Inr (Some s)"
    by (auto simp: yahoo_search_result resp_json_def ebind_def
             split: http_result.splits if_splits option.splits sum.splits)
  from e obtain quotes where q: "py_get data ''quotes'' (JArr []) = Inr quotes"
    and e2: "ebind (py_iter quotes) yahoo_scan = Inr (Some s)"
    by (auto simp: ebind_def split: sum.splits)
  from e2 obtain items where i: "py_iter quotes = Inr items" and sc: "yahoo_scan items = Inr (Some s)"
    by (auto simp: ebind_def split: sum.splits)
  from yahoo_scan_accepts[OF sc] r q i
  show "\<exists>data quotes items kvs.
         http_get ev (trace st @ [Ev_get None (YAHOO_SEARCH_URL name)]) = Response 200 (Some data) \<and>
         py_get data ''quotes'' (JArr []) = Inr quotes \<and> py_iter quotes = Inr items \<and>
         JObj kvs \<in> set items \<and>
         map_of kvs ''exchange'' = Some (JStr ''NSI'') \<and>
         map_of kvs ''quoteType'' = Some (JStr ''EQUITY'') \<and>
         map_of kvs ''symbol'' = Some (JStr s) \<and> suffix ''.NS'' s"
    by blast
next
  assume h: "http_get ev (trace st @ [Ev_get None (YAHOO_SEARCH_URL name)])
        = Response 200 (Some (JObj [(''quotes'', JArr [JObj cand])])) \<and>
    \<not> (map_of cand ''exchange'' = Some (JStr ''NSI'') \<and>
       map_of cand ''quoteType'' = Some (JStr ''EQUITY'') \<and>
       (\<exists>s'. map_of cand ''symbol'' = Some (JStr s') \<and> suffix ''.NS'' s'))"
  then have n: "\<And>s. yahoo_scan [JObj cand] \<noteq> Inr (Some s)"
    using yahoo_scan_sole_rejected by blast
  have "(case yahoo_scan [JObj cand] of Inl e \<Rightarrow> Inr None | Inr r \<Rightarrow> Inr r) = (Inr None :: exn + string option)"
  proof (cases "yahoo_scan [JObj cand]")
    case (Inl e)
    then show ?thesis by simp
  next
    case (Inr r)
    with n show ?thesis by (cases r) auto
  qed
  with h show "fst (yahoo_search_nse_symbol ev name st) = Inr None"
    by (simp add: yahoo_search_result resp_json_def ebind_def)
next
  assume "state_ok st \<and>
    http_get ev (trace (snd (get_client ev st)) @
       [Ev_get (Some (fst (get_client ev st))) (NSE_SEARCH_URL (py_upper (py_strip name)))])
      = Response 200 (Some (JObj payload)) \<and>
    map_of payload ''symbols'' = Some (JArr (JObj first # others)) \<and>
    map_of first ''symbol'' = Some (JStr raw) \<and> raw \<noteq> []"
  then show "fst (nse_search_nse_symbol ev name st) = Inr (Some (py_upper raw))"
    using nse_search_first_candidate by blast
qed

theorem yahoo_search_exchange_filter_witness:
  "fst (yahoo_search_nse_symbol upstream_nse_listing ''tcs'' initial_state) = Inr (Some ''TCS.NS'') \<and>
   suffix ''.NS'' ''TCS.NS'' \<and>
   http_get upstream_bse_only (trace initial_state @ [Ev_get None (YAHOO_SEARCH_URL ''tcs'')])
     = Response 200 (Some (JObj [(''quotes'',
         JArr [JObj [(''exchange'', JStr ''BSE''), (''quoteType'', JStr ''EQUITY''),
                     (''symbol'', JStr ''TCS.BO'')]])])) \<and>
   fst (yahoo_search_nse_symbol upstream_bse_only ''tcs'' initial_state) = Inr None \<and>
   state_ok initial_state \<and>
   http_get upstream_autocomplete
       [Ev_create 0, Ev_get (Some 0) NSE_BASE_URL, Ev_get (Some 0) (NSE_SEARCH_URL ''TCS'')]
     = Response 200 (Some (JObj [(''symbols'', JArr [JObj [(''symbol'', JStr ''tcs'')]])])) \<and>
   fst (nse_search_nse_symbol upstream_autocomplete ''tcs'' initial_state) = Inr (Some ''TCS'')"
proof -
  have a: "fst (yahoo_search_nse_symbol upstream_nse_listing ''tcs'' initial_state) = Inr (Some ''TCS.NS'')"
    by (simp add: yahoo_search_result upstream_nse_listing_def resp_json_def ebind_def
          py_endswith_def suffix_to_prefix)
  with yahoo_search_exchange_filter[where ev = upstream_nse_listing and name = "''tcs''"
         and st = initial_state and s = "''TCS.NS''", THEN conjunct1]
  have b: "suffix ''.NS'' ''TCS.NS''" by blast
  have c: "http_get upstream_bse_only (trace initial_state @ [Ev_get None (YAHOO_SEARCH_URL ''tcs'')])
     = Response 200 (Some (JObj [(''quotes'',
         JArr [JObj [(''exchange'', JStr ''BSE''), (''quoteType'', JStr ''EQUITY''),
                     (''symbol'', JStr ''TCS.BO'')]])]))"
    by (simp add: upstream_bse_only_def)
  with yahoo_search_exchange_filter[where ev = upstream_bse_only and name = "''tcs''"
         and st = initial_state
         and cand = "[(''exchange'', JStr ''BSE''), (''quoteType'', JStr ''EQUITY''), (''symbol'', JStr ''TCS.BO'')]",
         THEN conjunct2, THEN conjunct1]
  have d: "fst (yahoo_search_nse_symbol upstream_bse_only ''tcs'' initial_state) = Inr None"
    by simp
  have u: "py_upper (py_strip ''tcs'') = ''TCS''" "py_upper ''tcs'' = ''TCS''" by code_simp+
  have e: "http_get upstream_autocomplete
       [Ev_create 0, Ev_get (Some 0) NSE_BASE_URL, Ev_get (Some 0) (NSE_SEARCH_URL ''TCS'')]
     = Response 200 (Some (JObj [(''symbols'', JArr [JObj [(''symbol'', JStr ''tcs'')]])]))"
    by (simp add: upstream_autocomplete_def)
  with yahoo_search_exchange_filter[where ev = upstream_autocomplete and name = "''tcs''"
         and st = initial_state
         and payload = "[(''symbols'', JArr [JObj [(''symbol'', JStr ''tcs'')]])]"
         and first = "[(''symbol'', JStr ''tcs'')]" and others = "[]" and raw = "''tcs''",
         THEN conjunct2, THEN conjunct2] state_ok_initial
  have f: "fst (nse_search_nse_symbol upstream_autocomplete ''tcs'' initial_state) = Inr (Some ''TCS'')"
    by (simp add: get_client_initial u)
  from a b c d e f state_ok_initial show ?thesis by blast
qed

text \<open>
  Claim C7 as the specification words it fails on the search of \<open>nse_client.py\<close>, which
  applies no filter: a candidate with no exchange code, no quote type and a symbol
  without the suffix is returned, upper-cased.
\<close>

theorem nse_search_unfiltered_counterexample:
  "http_get upstream_autocomplete [Ev_create 0, Ev_get (Some 0) NSE_BASE_URL, Ev_get (Some 0) (NSE_SEARCH_URL ''TCS'')]
     = Response 200 (Some (JObj [(''symbols'', JArr [JObj [(''symbol'', JStr ''tcs'')]])])) \<and>
   map_of [(''symbol'', JStr ''tcs'')] ''exchange'' = None \<and>
   map_of [(''symbol'', JStr ''tcs'')] ''quoteType'' = None \<and>
   \<not> suffix ''.NS'' ''tcs'' \<and> \<not> suffix ''.NS'' ''TCS'' \<and>
   nse_search_nse_symbol upstream_autocomplete ''tcs'' initial_state =
     (Inr (Some ''TCS''),
      initial_state\<lparr>nse_client := Some 0, fresh := Suc 0,
        trace := [Ev_create 0, Ev_get (Some 0) NSE_BASE_URL, Ev_get (Some 0) (NSE_SEARCH_URL ''TCS'')]\<rparr>)"
proof -
  have u: "py_upper (py_strip ''tcs'') = ''TCS''" "py_upper ''tcs'' = ''TCS''" by code_simp+
  have o: "0 \<notin> closed_clients (initial_state\<lparr>nse_client := Some 0, fresh := Suc 0,
           trace := [Ev_create 0, Ev_get (Some 0) NSE_BASE_URL]\<rparr>)"
    by (simp add: initial_state_def)
  show ?thesis
    by (simp add: nse_search_nse_symbol_def get_client_initial nse_search_body_def
          client_get_open[OF o] u upstream_autocomplete_def try_except_def resp_json_def ebind_def
          emit_def suffix_to_prefix)
qed


lemma yahoo_search_trace:
  "trace (snd (yahoo_search_nse_symbol ev q s)) = trace s @ [Ev_get None (YAHOO_SEARCH_URL q)]"
  by (simp add: yahoo_search_nse_symbol_def yahoo_search_body_def try_except_def Let_def
           split: http_result.splits sum.splits)

lemma search_stock_miss_trace:
  assumes "\<not> truthy (fst (TTLCache_get (symbol_cache st) (py_lower (py_strip name)) now_get))"
  shows "trace (snd (search_stock ev name now_get now_set st)) =
           trace st @ [Ev_get None (YAHOO_SEARCH_URL (py_lower (py_strip name)))]"
proof -
  let ?q = "py_lower (py_strip name)"
  obtain cached sc where g: "TTLCache_get (symbol_cache st) ?q now_get = (cached, sc)"
    by (cases "TTLCache_get (symbol_cache st) ?q now_get")
  with assms have nt: "\<not> truthy cached" by simp
  let ?st1 = "st\<lparr>symbol_cache := sc\<rparr>"
  obtain r st2 where y: "yahoo_search_nse_symbol ev ?q ?st1 = (r, st2)"
    by (cases "yahoo_search_nse_symbol ev ?q ?st1")
  with yahoo_search_trace[of ev ?q ?st1] have t: "trace st2 = trace st @ [Ev_get None (YAHOO_SEARCH_URL ?q)]"
    by simp
  show ?thesis
    using g nt y t
    by (auto simp: search_stock_def Let_def split: sum.splits)
qed

text \<open>
  Claim C1, in the form the code satisfies. \<open>resolve_symbol_locally\<close> returns the mapped
  symbol for every name whose trimmed, lower-cased form is a key of the alias table; it
  is a lookup in a constant table and touches neither the state nor the network. The
  endpoint \<open>search_stock\<close> does not consult it: whenever the symbol cache gives no
  non-empty symbol for the normalised name, it sends exactly one request to the Yahoo
  search, for every name.
\<close>

theorem alias_lookup_and_search_stock:
  "(map_of COMMON_NAMES_TO_SYMBOL (py_lower (py_strip name)) = Some ticker \<longrightarrow>
      resolve_symbol_locally name = Some ticker) \<and>
   (\<not> truthy (fst (TTLCache_get (symbol_cache st) (py_lower (py_strip name)) now_get)) \<longrightarrow>
      trace (snd (search_stock ev name now_get now_set st)) =
        trace st @ [Ev_get None (YAHOO_SEARCH_URL (py_lower (py_strip name)))])"
  using search_stock_miss_trace by (simp add: resolve_symbol_locally_def Let_def)

lemma normalize_TCS: "py_lower (py_strip ''  TCS  '') = ''tcs''"
  by code_simp

lemma alias_tcs: "map_of COMMON_NAMES_TO_SYMBOL ''tcs'' = Some ''TCS''"
  by (simp add: COMMON_NAMES_TO_SYMBOL_def)

theorem alias_lookup_and_search_stock_witness:
  "map_of COMMON_NAMES_TO_SYMBOL (py_lower (py_strip ''  TCS  '')) = Some ''TCS'' \<and>
   resolve_symbol_locally ''  TCS  '' = Some ''TCS'' \<and>
   \<not> truthy (fst (TTLCache_get (symbol_cache initial_state) (py_lower (py_strip ''  TCS  '')) 10)) \<and>
   trace (snd (search_stock upstream_down ''  TCS  '' 10 11 initial_state)) =
     [Ev_get None (YAHOO_SEARCH_URL ''tcs'')]"
proof -
  have a: "map_of COMMON_NAMES_TO_SYMBOL (py_lower (py_strip ''  TCS  '')) = Some ''TCS''"
    by (simp add: normalize_TCS alias_tcs)
  have b: "\<not> truthy (fst (TTLCache_get (symbol_cache initial_state) (py_lower (py_strip ''  TCS  '')) 10))"
    by (simp add: initial_state_def TTLCache_init_def TTLCache_get_def truthy_def)
  from alias_lookup_and_search_stock[of "''  TCS  ''" "''TCS''" initial_state 10 upstream_down 11] a b
  have "resolve_symbol_locally ''  TCS  '' = Some ''TCS''"
    and "trace (snd (search_stock upstream_down ''  TCS  '' 10 11 initial_state)) =
           trace initial_state @ [Ev_get None (YAHOO_SEARCH_URL (py_lower (py_strip ''  TCS  '')))]"
    by blast+
  with a b show ?thesis by (simp add: normalize_TCS initial_state_def)
qed

text \<open>
  Claim C1 as the specification words it fails on \<open>search_stock\<close>: for the alias name
  \<open>"  TCS  "\<close> and an empty cache it sends a search request; it answers with the symbol
  the upstream gives, not with the one of the alias table, and with status 404 when the
  upstream is down.
\<close>

theorem search_stock_skips_alias_counterexample:
  "resolve_symbol_locally ''  TCS  '' = Some ''TCS'' \<and>
   search_stock upstream_nse_listing ''  TCS  '' 10 11 initial_state =
     (Inr ''TCS.NS'',
      initial_state\<lparr>symbol_cache := \<lparr>ttl = 3600, max_items = 256, store = [(''tcs'', (''TCS.NS'', 11))]\<rparr>,
                     trace := [Ev_get None (YAHOO_SEARCH_URL ''tcs'')]\<rparr>) \<and>
   search_stock upstream_down ''  TCS  '' 10 11 initial_state =
     (Inl (HTTPException 404), initial_state\<lparr>trace := [Ev_get None (YAHOO_SEARCH_URL ''tcs'')]\<rparr>)"
proof (intro conjI)
  show "resolve_symbol_locally ''  TCS  '' = Some ''TCS''"
    by (simp add: resolve_symbol_locally_def normalize_TCS alias_tcs)
  show "search_stock upstream_nse_listing ''  TCS  '' 10 11 initial_state =
     (Inr ''TCS.NS'',
      initial_state\<lparr>symbol_cache := \<lparr>ttl = 3600, max_items = 256, store = [(''tcs'', (''TCS.NS'', 11))]\<rparr>,
                     trace := [Ev_get None (YAHOO_SEARCH_URL ''tcs'')]\<rparr>)"
    by (simp add: search_stock_def normalize_TCS initial_state_def TTLCache_init_def TTLCache_get_def
          truthy_def yahoo_search_nse_symbol_def yahoo_search_body_def try_except_def emit_def
          upstream_nse_listing_def resp_json_def ebind_def py_endswith_def TTLCache_set_def
          suffix_to_prefix Let_def)
  show "search_stock upstream_down ''  TCS  '' 10 11 initial_state =
     (Inl (HTTPException 404), initial_state\<lparr>trace := [Ev_get None (YAHOO_SEARCH_URL ''tcs'')]\<rparr>)"
    by (simp add: search_stock_def normalize_TCS initial_state_def TTLCache_init_def TTLCache_get_def
          truthy_def yahoo_search_nse_symbol_def yahoo_search_body_def try_except_def emit_def
          upstream_down_def Let_def)
qed

end
